theory Spec2Isabelle
  imports Main "HOL-Library.Char_ord" "HOL-Library.List_Lexorder" "HOL-Library.AList"
begin

section \<open>The route recognizer of \<open>src/lib/router.js\<close>\<close>

text \<open>
  The development embeds the second program of \<open>src/lib/router.js\<close> (the
  \<open>RouteRecognizer\<close> with segments, states, the query-string codec and the named-route
  registry). A JavaScript string is a sequence of 16-bit code units, and \<open>length\<close>,
  \<open>charAt\<close>, \<open>substr\<close> and the regular expressions work on code units. The strings
  of the model are \<open>string\<close>, the sequences of code units below 256 (a \<open>char\<close> is one
  code unit), so that lengths and indices are those of the source; text with a code unit
  from 256 upwards is not covered. A thrown exception is the left summand of a result, and
  an object used as a dictionary is an association list in insertion order.
\<close>

subsection \<open>Strings and objects of the host language\<close>

datatype error = Error string | TypeError | URIError

text \<open>\<open>String.prototype.split\<close> with a one-character separator: at least one field,
  the empty string gives one empty field.\<close>

fun js_split :: "char \<Rightarrow> string \<Rightarrow> string list" where
  "js_split sep [] = [[]]"
| "js_split sep (c # cs) =
     (if c = sep then [] # js_split sep cs
      else (case js_split sep cs of [] \<Rightarrow> [[c]] | p # ps \<Rightarrow> (c # p) # ps))"

text \<open>\<open>Array.prototype.join\<close>.\<close>

fun js_join :: "string \<Rightarrow> string list \<Rightarrow> string" where
  "js_join sep [] = []"
| "js_join sep [x] = x"
| "js_join sep (x # y # ys) = x @ sep @ js_join sep (y # ys)"

text \<open>
  A property read \<open>obj[k]\<close> on an object created by \<open>{}\<close> finds the object's own
  property, or else a property inherited from \<open>Object.prototype\<close> (a function or an
  object, hence truthy), or else \<open>undefined\<close>.
\<close>

type_synonym 'v obj = "(string \<times> 'v) list"

datatype 'v property = Own 'v | Inherited | Absent

definition objectPrototypeKeys :: "string list" where
  "objectPrototypeKeys =
     [''constructor'', ''hasOwnProperty'', ''isPrototypeOf'', ''propertyIsEnumerable'',
      ''toLocaleString'', ''toString'', ''valueOf'', ''__proto__'',
      ''__defineGetter__'', ''__defineSetter__'', ''__lookupGetter__'', ''__lookupSetter__'']"

definition getProp :: "'v obj \<Rightarrow> string \<Rightarrow> 'v property" where
  "getProp obj k =
     (case map_of obj k of
        Some v \<Rightarrow> Own v
      | None \<Rightarrow> if k \<in> set objectPrototypeKeys then Inherited else Absent)"

text \<open>An assignment \<open>obj[k] = v\<close> of a string (or of \<open>undefined\<close>): the key
  \<open>__proto__\<close> is the prototype accessor, which ignores a value that is not an object.\<close>

definition setPrimitive :: "'v obj \<Rightarrow> string \<Rightarrow> 'v \<Rightarrow> 'v obj" where
  "setPrimitive obj k v = (if k = ''__proto__'' then obj else AList.update k v obj)"

subsection \<open>The environment: built-in URI coding and the injected normalizer\<close>

text \<open>
  \<open>encodeURIComponent\<close>, \<open>decodeURIComponent\<close> and \<open>decodeURI\<close> are built-ins of
  the host (the decoders throw \<open>URIError\<close>, here \<open>None\<close>); \<open>normalizePath\<close> and
  \<open>normalizeSegment\<close> are imported from \<open>./route-recognizer/normalizer\<close>, which is
  not part of the source at hand. All of them, and the switch
  \<open>RouteRecognizer.ENCODE_AND_DECODE_PATH_SEGMENTS\<close>, are parameters of the model.
\<close>

record env =
  encodeURIComponent :: "string \<Rightarrow> string"
  decodeURIComponent :: "string \<Rightarrow> string option"
  decodeURI :: "string \<Rightarrow> string option"
  normalizePath :: "string \<Rightarrow> string"
  normalizeSegment :: "string \<Rightarrow> string"
  ENCODE_AND_DECODE_PATH_SEGMENTS :: bool
  inheritedText :: "string \<Rightarrow> string"

text \<open>
  An instance of the environment for ASCII text, used where a statement is evaluated on
  concrete input. Its coders follow the built-ins where the text and its decoding are
  ASCII. Beyond that the built-ins work with UTF-8 sequences, which this instance does not
  do: its encoder escapes a code unit from 128 upwards as one byte, and its decoders answer
  an escape from \<open>%80\<close> upwards with \<open>None\<close>. Its normalizer decodes a segment and
  escapes \<open>%\<close> and \<open>/\<close> again (a malformed segment is left as it is).
\<close>

definition uriUnreserved :: "char \<Rightarrow> bool" where
  "uriUnreserved c =
     (c \<in> set ''ABCDEFGHIJKLMNOPQRSTUVWXYZabcdefghijklmnopqrstuvwxyz0123456789-_.!~*'()'')"

definition hexDigit :: "nat \<Rightarrow> char" where
  "hexDigit n = ''0123456789ABCDEF'' ! (n mod 16)"

definition escapeByte :: "char \<Rightarrow> string" where
  "escapeByte c = [CHR ''%'', hexDigit (of_char c div 16), hexDigit (of_char c mod 16)]"

definition asciiEncode :: "string \<Rightarrow> string" where
  "asciiEncode s = concat (map (\<lambda>c. if uriUnreserved c then [c] else escapeByte c) s)"

definition hexValue :: "char \<Rightarrow> nat option" where
  "hexValue c =
     (if c \<in> set ''0123456789'' then Some (of_char c - 48)
      else if c \<in> set ''ABCDEF'' then Some (of_char c - 55)
      else if c \<in> set ''abcdef'' then Some (of_char c - 87)
      else None)"

fun asciiDecode :: "(char \<Rightarrow> bool) \<Rightarrow> string \<Rightarrow> string option" where
  "asciiDecode keep [] = Some []"
| "asciiDecode keep (c # cs) =
     (if c = CHR ''%'' then
        (case cs of
           h # l # rest \<Rightarrow>
             (case (hexValue h, hexValue l) of
                (Some a, Some b) \<Rightarrow>
                  (if 16 * a + b < 128 then
                     (case asciiDecode keep rest of
                        None \<Rightarrow> None
                      | Some r \<Rightarrow>
                          Some ((if keep (char_of (16 * a + b)) then [c, h, l]
                                 else [char_of (16 * a + b)]) @ r))
                   else None)
              | _ \<Rightarrow> None)
         | _ \<Rightarrow> None)
      else map_option (Cons c) (asciiDecode keep cs))"

definition asciiNormalizeSegment :: "string \<Rightarrow> string" where
  "asciiNormalizeSegment s =
     (case asciiDecode (\<lambda>c. False) s of
        None \<Rightarrow> s
      | Some d \<Rightarrow>
          concat (map (\<lambda>c. if c = CHR ''%'' \<or> c = CHR ''/'' then escapeByte c else [c]) d))"

definition asciiEnv :: env where
  "asciiEnv =
     \<lparr> encodeURIComponent = asciiEncode,
       decodeURIComponent = asciiDecode (\<lambda>c. False),
       decodeURI = asciiDecode (\<lambda>c. c \<in> set '';/?:@&=+$,#''),
       normalizePath = (\<lambda>p. js_join ''/'' (map asciiNormalizeSegment (js_split CHR ''/'' p))),
       normalizeSegment = asciiNormalizeSegment,
       ENCODE_AND_DECODE_PATH_SEGMENTS = True,
       inheritedText = (\<lambda>k. ''function '' @ k @ ''() { [native code] }'') \<rparr>"

subsection \<open>The query-string codec\<close>

text \<open>A query parameter is \<open>null\<close>/\<open>undefined\<close>, a string or an array of strings.\<close>

datatype qvalue = Null | Scalar string | Array "string list"

type_synonym queryParams = "qvalue obj"

text \<open>\<open>decodeQueryParamPart\<close>: every \<open>+\<close> becomes \<open>%20\<close>, then
  \<open>decodeURIComponent\<close> inside \<open>try\<close>/\<open>catch\<close>.\<close>

definition decodeQueryParamPart :: "env \<Rightarrow> string \<Rightarrow> string" where
  "decodeQueryParamPart env part =
     (let part' = concat (map (\<lambda>c. if c = CHR ''+'' then ''%20'' else [c]) part)
      in case decodeURIComponent env part' of Some result \<Rightarrow> result | None \<Rightarrow> [])"

text \<open>Truthiness of \<open>queryParams[key]\<close>.\<close>

definition truthy :: "qvalue property \<Rightarrow> bool" where
  "truthy p =
     (case p of
        Own Null \<Rightarrow> False
      | Own (Scalar s) \<Rightarrow> s \<noteq> []
      | Own (Array xs) \<Rightarrow> True
      | Inherited \<Rightarrow> True
      | Absent \<Rightarrow> False)"

text \<open>The body of the loop of \<open>parseQueryString\<close>, for one element of \<open>pairs\<close>.
  \<open>push\<close> on a value that is not an array throws \<open>TypeError\<close>.\<close>

definition parsePair :: "env \<Rightarrow> queryParams \<Rightarrow> string \<Rightarrow> error + queryParams" where
  "parsePair env queryParams p =
     (let pair = js_split CHR ''='' p;
          key = decodeQueryParamPart env (hd pair);
          keyLength = length key
      in if length pair = 1 then Inr (setPrimitive queryParams key (Scalar ''true''))
         else
           (let value = (if pair ! 1 \<noteq> [] then decodeQueryParamPart env (pair ! 1) else [])
            in if keyLength > 2 \<and> drop (keyLength - 2) key = ''[]'' then
                 (let key' = take (keyLength - 2) key;
                      queryParams' =
                        (if \<not> truthy (getProp queryParams key')
                         then AList.update key' (Array []) queryParams else queryParams)
                  in case getProp queryParams' key' of
                       Own (Array xs) \<Rightarrow>
                         Inr (AList.update key' (Array (xs @ [value])) queryParams')
                     | _ \<Rightarrow> Inl TypeError)
               else Inr (setPrimitive queryParams key (Scalar value))))"

fun parsePairs :: "env \<Rightarrow> string list \<Rightarrow> queryParams \<Rightarrow> error + queryParams" where
  "parsePairs env [] queryParams = Inr queryParams"
| "parsePairs env (p # ps) queryParams =
     (case parsePair env queryParams p of
        Inl e \<Rightarrow> Inl e
      | Inr queryParams' \<Rightarrow> parsePairs env ps queryParams')"

definition parseQueryString :: "env \<Rightarrow> string \<Rightarrow> error + queryParams" where
  "parseQueryString env queryString = parsePairs env (js_split CHR ''&'' queryString) []"

text \<open>
  \<open>generateQueryString\<close>: the own keys, sorted by \<open>Array.prototype.sort\<close> without a
  comparator (the order of the strings); then the pairs of every key in turn. The array
  branch builds its pair from \<open>key\<close>, the scalar branch from \<open>encodeURIComponent(key)\<close>.
\<close>

definition ownKeys :: "'v obj \<Rightarrow> string list" where
  "ownKeys obj = remdups (map fst obj)"

fun keyPairs :: "env \<Rightarrow> queryParams \<Rightarrow> string list \<Rightarrow> string list" where
  "keyPairs env params [] = []"
| "keyPairs env params (key # keys) =
     (case map_of params key of
        None \<Rightarrow> keyPairs env params keys
      | Some Null \<Rightarrow> keyPairs env params keys
      | Some (Array vs) \<Rightarrow>
          map (\<lambda>v. key @ ''[]'' @ ''='' @ encodeURIComponent env v) vs @ keyPairs env params keys
      | Some (Scalar v) \<Rightarrow>
          (encodeURIComponent env key @ ''='' @ encodeURIComponent env v)
            # keyPairs env params keys)"

definition generateQueryString :: "env \<Rightarrow> queryParams \<Rightarrow> string" where
  "generateQueryString env params =
     (let pairs = keyPairs env params (sort (ownKeys params))
      in if pairs = [] then [] else ''?'' @ js_join ''&'' pairs)"




subsection \<open>Segments and the pattern parser\<close>

text \<open>The constructors \<open>StaticSegment\<close> and \<open>DynamicSegment\<close> of the source store
  \<open>normalizeSegment\<close> of their argument; \<open>parseSegment\<close> below applies it.\<close>

datatype segment =
    StaticSegment string
  | DynamicSegment string
  | StarSegment string
  | EpsilonSegment

definition specials :: string where
  "specials = [CHR ''/'', CHR ''.'', CHR ''*'', CHR ''+'', CHR ''?'', CHR ''|'',
               CHR ''('', CHR '')'', CHR ''['', CHR '']'', CHR ''{'', CHR ''}'', CHR 0x5C]"

text \<open>\<open>string.replace(escapeRegex, '\\$1')\<close>: a backslash before every character of
  \<open>specials\<close>.\<close>

definition escapeRegex :: "string \<Rightarrow> string" where
  "escapeRegex s = concat (map (\<lambda>c. if c \<in> set specials then [CHR 0x5C, c] else [c]) s)"

fun segmentRegex :: "segment \<Rightarrow> string" where
  "segmentRegex (StaticSegment s) = escapeRegex s"
| "segmentRegex (DynamicSegment name) = ''([^/]+)''"
| "segmentRegex (StarSegment name) = ''(.+)''"
| "segmentRegex EpsilonSegment = []"

text \<open>\<open>segment.match(/^:([^\/]+)$/)\<close> and \<open>segment.match(/^\*([^\/]+)$/)\<close>: the text
  after the mark, when it is not empty and holds no \<open>/\<close>.\<close>

definition matchMarked :: "char \<Rightarrow> string \<Rightarrow> string option" where
  "matchMarked mark segment =
     (case segment of
        [] \<Rightarrow> None
      | c # rest \<Rightarrow>
          if c = mark \<and> rest \<noteq> [] \<and> CHR ''/'' \<notin> set rest then Some rest else None)"

text \<open>
  A JavaScript number that is a non-negative integer or \<open>Infinity\<close>. Unary \<open>+\<close> on a
  string of decimal digits gives the double nearest to the integer the digits denote
  (ties to the even significand); below \<open>2^53\<close> that is the integer itself.
\<close>

datatype number = Finite nat | Infinity

fun bitlen :: "nat \<Rightarrow> nat" where
  "bitlen n = (if n = 0 then 0 else Suc (bitlen (n div 2)))"

definition roundToDouble :: "nat \<Rightarrow> number" where
  "roundToDouble n =
     (if n < 2 ^ 53 then Finite n
      else
        (let e = bitlen n - 53;
             q = n div 2 ^ e;
             r = n mod 2 ^ e;
             half = 2 ^ (e - 1);
             q' = (if r > half \<or> (r = half \<and> odd q) then q + 1 else q)
         in if q' * 2 ^ e \<ge> 2 ^ 1024 then Infinity else Finite (q' * 2 ^ e)))"

definition digitsValue :: "string \<Rightarrow> nat" where
  "digitsValue s = foldl (\<lambda>n c. 10 * n + (of_char c - 48)) 0 s"

definition toNumber :: "string \<Rightarrow> number" where
  "toNumber s = roundToDouble (digitsValue s)"

text \<open>
  \<open>parse(route, names, specificity, shouldDecodes)\<close>. The loop appends to \<open>results\<close>,
  \<open>names\<close> and \<open>shouldDecodes\<close> and to the digit string \<open>specificity.val\<close>, which
  starts empty in every call and is converted to a number at the end.
\<close>

fun parseLoop ::
  "env \<Rightarrow> string list \<Rightarrow> segment list \<Rightarrow> string list \<Rightarrow> bool list \<Rightarrow> string
   \<Rightarrow> segment list \<times> string list \<times> bool list \<times> string" where
  "parseLoop env [] rs ns sds val = (rs, ns, sds, val)"
| "parseLoop env (segment # segments) rs ns sds val =
     (case matchMarked CHR '':'' segment of
        Some name \<Rightarrow>
          parseLoop env segments (rs @ [DynamicSegment (normalizeSegment env name)])
            (ns @ [name]) (sds @ [True]) (val @ ''3'')
      | None \<Rightarrow>
          (case matchMarked CHR ''*'' segment of
             Some name \<Rightarrow>
               parseLoop env segments (rs @ [StarSegment name])
                 (ns @ [name]) (sds @ [False]) (val @ ''1'')
           | None \<Rightarrow>
               if segment = [] then
                 parseLoop env segments (rs @ [EpsilonSegment]) ns sds
                   (val @ ''2'')
               else
                 parseLoop env segments
                   (rs @ [StaticSegment (normalizeSegment env segment)]) ns
                   sds (val @ ''4'')))"

definition parse ::
  "env \<Rightarrow> string \<Rightarrow> string list \<Rightarrow> bool list
   \<Rightarrow> segment list \<times> string list \<times> bool list \<times> number" where
  "parse env route ns sds =
     (let route' = (case route of [] \<Rightarrow> [] | c # cs \<Rightarrow> if c = CHR ''/'' then cs else route);
          segments = js_split CHR ''/'' route'
      in case parseLoop env segments [] ns sds [] of
           (rs, ns', sds', val) \<Rightarrow> (rs, ns', sds', toNumber val))"

subsection \<open>States\<close>

text \<open>
  The states of the automaton live in an arena (a list), a reference to a state is its
  index, and the root state is index 0. A state that is not accepting has no \<open>regex\<close>,
  \<open>handlers\<close> or \<open>specificity\<close>; \<open>specificity\<close> is the value of
  \<open>specificity.val\<close>, which stays \<open>undefined\<close> (\<open>None\<close>) when a batch has no route.
  Only the root has no character specification, and the root is never a child.
\<close>

record charSpec =
  validChars :: "string option"
  invalidChars :: "string option"
  repeat :: bool

record 'h handler =
  handler :: 'h
  names :: "string list"
  shouldDecodes :: "bool list"

record state =
  charSpec :: "charSpec option"
  nextStates :: "nat list"
  regex :: "string option"
  handlers :: "nat option"
  specificity :: "number option option"

definition State :: "charSpec option \<Rightarrow> state" where
  "State spec =
     \<lparr> charSpec = spec, nextStates = [], regex = None, handlers = None, specificity = None \<rparr>"

definition isEqualCharSpec :: "charSpec \<Rightarrow> charSpec \<Rightarrow> bool" where
  "isEqualCharSpec specA specB =
     (validChars specA = validChars specB \<and> invalidChars specA = invalidChars specB)"

definition nextOf :: "state list \<Rightarrow> nat \<Rightarrow> nat list" where
  "nextOf states s = (if s < length states then nextStates (states ! s) else [])"

definition specOf :: "state list \<Rightarrow> nat \<Rightarrow> charSpec option" where
  "specOf states s = (if s < length states then charSpec (states ! s) else None)"

fun getChild :: "state list \<Rightarrow> nat list \<Rightarrow> charSpec \<Rightarrow> nat option" where
  "getChild states [] spec = None"
| "getChild states (child # rest) spec =
     (case specOf states child of
        Some cs \<Rightarrow> if isEqualCharSpec cs spec then Some child else getChild states rest spec
      | None \<Rightarrow> getChild states rest spec)"

definition get :: "state list \<Rightarrow> nat \<Rightarrow> charSpec \<Rightarrow> nat option" where
  "get states this spec = getChild states (nextOf states this) spec"

definition put :: "state list \<Rightarrow> nat \<Rightarrow> charSpec \<Rightarrow> state list \<times> nat" where
  "put states this spec =
     (case get states this spec of
        Some state \<Rightarrow> (states, state)
      | None \<Rightarrow>
          (let state = length states;
               pushed = states[this := (states ! this)
                          \<lparr> nextStates := nextStates (states ! this) @ [state] \<rparr>];
               new = (State (Some spec)) \<lparr> nextStates := (if repeat spec then [state] else []) \<rparr>
           in (pushed @ [new], state)))"

definition specMatches :: "charSpec \<Rightarrow> char \<Rightarrow> bool" where
  "specMatches cs ch =
     (case validChars cs of
        Some chars \<Rightarrow> ch \<in> set chars
      | None \<Rightarrow> (case invalidChars cs of Some chars \<Rightarrow> ch \<notin> set chars | None \<Rightarrow> False))"

definition match :: "state list \<Rightarrow> nat \<Rightarrow> char \<Rightarrow> nat list" where
  "match states this ch =
     filter (\<lambda>child. case specOf states child of Some cs \<Rightarrow> specMatches cs ch | None \<Rightarrow> False)
       (nextOf states this)"

definition recognizeChar :: "state list \<Rightarrow> nat list \<Rightarrow> char \<Rightarrow> nat list" where
  "recognizeChar states current ch = concat (map (\<lambda>state. match states state ch) current)"

text \<open>\<open>segment.eachChar(currentState)\<close>.\<close>

definition charSpecOf :: "string option \<Rightarrow> string option \<Rightarrow> bool \<Rightarrow> charSpec" where
  "charSpecOf invalid valid rep = \<lparr> validChars = valid, invalidChars = invalid, repeat = rep \<rparr>"

fun putChars :: "state list \<Rightarrow> nat \<Rightarrow> string \<Rightarrow> state list \<times> nat" where
  "putChars states currentState [] = (states, currentState)"
| "putChars states currentState (ch # rest) =
     (case put states currentState (charSpecOf None (Some [ch]) False) of
        (states', currentState') \<Rightarrow> putChars states' currentState' rest)"

fun eachChar :: "segment \<Rightarrow> state list \<Rightarrow> nat \<Rightarrow> state list \<times> nat" where
  "eachChar (StaticSegment s) states currentState = putChars states currentState s"
| "eachChar (DynamicSegment name) states currentState =
     put states currentState (charSpecOf (Some ''/'') None True)"
| "eachChar (StarSegment name) states currentState =
     put states currentState (charSpecOf (Some []) None True)"
| "eachChar EpsilonSegment states currentState = (states, currentState)"

subsection \<open>Registration\<close>

text \<open>
  An array of handlers is an object of the heap: \<open>add\<close> creates one per batch and stores
  a reference to it in the accepting state and in the named route, and \<open>handlersFor\<close>
  creates a new one for its caller. The heap of the model is the list \<open>arrays\<close> of the
  engine, and a reference is an index into it.
\<close>

record 'h route =
  path :: string
  handler :: 'h

record namedRoute =
  segments :: "segment list"
  handlers :: nat

record 'h engine =
  states :: "state list"
  names :: "namedRoute obj"
  arrays :: "'h handler list list"

definition RouteRecognizer :: "'h engine" where
  "RouteRecognizer = \<lparr> states = [State None], names = [], arrays = [] \<rparr>"

definition slashSpec :: charSpec where
  "slashSpec = charSpecOf None (Some ''/'') False"

text \<open>The loop over the segments of one route: an \<open>EpsilonSegment\<close> is skipped, every
  other segment clears \<open>isEmpty\<close>, puts a \<open>/\<close> and then its own characters.\<close>

fun addSegments ::
  "state list \<Rightarrow> nat \<Rightarrow> string \<Rightarrow> bool \<Rightarrow> segment list
   \<Rightarrow> state list \<times> nat \<times> string \<times> bool" where
  "addSegments sts cur re emp [] = (sts, cur, re, emp)"
| "addSegments sts cur re emp (segment # rest) =
     (if segment = EpsilonSegment then addSegments sts cur re emp rest
      else
        (case put sts cur slashSpec of
           (sts1, cur1) \<Rightarrow>
             (case eachChar segment sts1 cur1 of
                (sts2, cur2) \<Rightarrow>
                  addSegments sts2 cur2 (re @ ''/'' @ segmentRegex segment) False rest)))"

record 'h adding =
  statesNow :: "state list"
  currentState :: nat
  regexNow :: string
  specificityVal :: "number option"
  handlersNow :: "'h handler list"
  allSegments :: "segment list"
  isEmpty :: bool

text \<open>The loop over the routes of a batch.\<close>

fun addRoutes :: "env \<Rightarrow> 'h adding \<Rightarrow> 'h route list \<Rightarrow> 'h adding" where
  "addRoutes env a [] = a"
| "addRoutes env a (r # routes) =
     (case parse env (route.path r) [] [] of
        (segs, ns, sds, val) \<Rightarrow>
          (case addSegments (statesNow a) (currentState a) (regexNow a) (isEmpty a) segs of
             (sts, cur, re, emp) \<Rightarrow>
               addRoutes env
                 \<lparr> statesNow = sts, currentState = cur, regexNow = re,
                   specificityVal = Some val,
                   handlersNow = handlersNow a @
                     [\<lparr> handler.handler = route.handler r, handler.names = ns,
                        handler.shouldDecodes = sds \<rparr>],
                   allSegments = allSegments a @ segs, isEmpty = emp \<rparr>
                 routes))"

text \<open>The state of \<open>add\<close> after its loop and after the \<open>if (isEmpty)\<close> that follows.\<close>

definition addLoop :: "env \<Rightarrow> 'h engine \<Rightarrow> 'h route list \<Rightarrow> 'h adding" where
  "addLoop env this routes =
     (let a = addRoutes env
                \<lparr> statesNow = states this, currentState = 0, regexNow = ''^'',
                  specificityVal = None, handlersNow = [], allSegments = [], isEmpty = True \<rparr>
                routes
      in if isEmpty a then
           (case put (statesNow a) (currentState a) slashSpec of
              (sts, cur) \<Rightarrow>
                a \<lparr> statesNow := sts, currentState := cur, regexNow := regexNow a @ ''/'' \<rparr>)
         else a)"

text \<open>\<open>add(routes, options)\<close>; \<open>alias\<close> is \<open>options && options.as\<close>, which registers the
  batch when it is a non-empty string. The binding is read back by \<open>getName\<close> below, which
  knows the binding of \<open>__proto__\<close> for what the assignment makes of it.\<close>

definition add :: "env \<Rightarrow> 'h engine \<Rightarrow> 'h route list \<Rightarrow> string option \<Rightarrow> 'h engine" where
  "add env this routes alias =
     (let a = addLoop env this routes;
          ref = length (arrays this);
          accepting = (statesNow a ! currentState a)
            \<lparr> state.regex := Some (regexNow a @ ''$''),
              state.handlers := Some ref,
              state.specificity := Some (specificityVal a) \<rparr>;
          sts = (statesNow a)[currentState a := accepting];
          registry =
            (case alias of
               None \<Rightarrow> names this
             | Some name \<Rightarrow>
                 if name = [] then names this
                 else AList.update name
                        \<lparr> segments = allSegments a, namedRoute.handlers = ref \<rparr> (names this))
      in \<lparr> states = sts, names = registry, arrays = arrays this @ [handlersNow a] \<rparr>)"

subsection \<open>The named-route registry\<close>

text \<open>
  \<open>handlersFor\<close> returns its result and the engine, whose heap holds the new array.
  A name that \<open>this.names\<close> only inherits gives a truthy \<open>route\<close> without
  \<open>handlers\<close> or \<open>segments\<close>, and reading their \<open>length\<close> throws \<open>TypeError\<close>.
\<close>

text \<open>
  A read \<open>this.names[name]\<close>. The assignment \<open>this.names[name] = {...}\<close> of \<open>add\<close>
  creates or replaces an own property, except for the name \<open>__proto__\<close>: there it replaces
  the prototype of \<open>this.names\<close> by the route object. The list keeps that binding under
  the key \<open>__proto__\<close> (a read of \<open>this.names.__proto__\<close> gives the route), and from then
  on \<open>segments\<close> and \<open>handlers\<close>, the properties of the route object, are inherited by
  \<open>this.names\<close> beside those of \<open>Object.prototype\<close>.
\<close>

definition getName :: "namedRoute obj \<Rightarrow> string \<Rightarrow> namedRoute property" where
  "getName registry name =
     (case map_of registry name of
        Some route \<Rightarrow> Own route
      | None \<Rightarrow>
          if name \<in> set objectPrototypeKeys
             \<or> (map_of registry ''__proto__'' \<noteq> None \<and> name \<in> set [''segments'', ''handlers''])
          then Inherited else Absent)"

definition noRoute :: "string \<Rightarrow> error" where
  "noRoute name = Error (''There is no route named '' @ name)"

definition arrayAt :: "'h engine \<Rightarrow> nat \<Rightarrow> 'h handler list" where
  "arrayAt this ref = (if ref < length (arrays this) then arrays this ! ref else [])"

definition handlersFor :: "'h engine \<Rightarrow> string \<Rightarrow> (error + nat) \<times> 'h engine" where
  "handlersFor this name =
     (case getName (names this) name of
        Absent \<Rightarrow> (Inl (noRoute name), this)
      | Inherited \<Rightarrow> (Inl TypeError, this)
      | Own route \<Rightarrow>
          (Inr (length (arrays this)),
           this \<lparr> arrays := arrays this @ [arrayAt this (namedRoute.handlers route)] \<rparr>))"

definition hasRoute :: "'h engine \<Rightarrow> string \<Rightarrow> bool" where
  "hasRoute this name = (case getName (names this) name of Absent \<Rightarrow> False | _ \<Rightarrow> True)"

text \<open>A write by the caller into an array it holds (an element replaced or removed, the
  whole content changed).\<close>

definition writeArray :: "'h engine \<Rightarrow> nat \<Rightarrow> 'h handler list \<Rightarrow> 'h engine" where
  "writeArray this ref content = this \<lparr> arrays := (arrays this)[ref := content] \<rparr>"

subsection \<open>Generation\<close>

text \<open>
  The argument \<open>params\<close> of \<open>generate\<close>: absent (\<open>undefined\<close>), or one object that
  holds the values of the parameters and, under the key \<open>queryParams\<close>, the query
  parameters. A value of the model is a string or an object of query parameters. Where a
  text is needed, a missing value is \<open>undefined\<close>, which both \<open>encodeURIComponent\<close> and
  \<open>+=\<close> turn into the text \<open>undefined\<close>, and an object is the text
  \<open>[object Object]\<close>.
\<close>

datatype pvalue = Text string | Query queryParams

definition paramText :: "env \<Rightarrow> pvalue obj \<Rightarrow> string \<Rightarrow> string" where
  "paramText env vals name =
     (case getProp vals name of
        Own (Text v) \<Rightarrow> v
      | Own (Query q) \<Rightarrow> ''[object Object]''
      | Inherited \<Rightarrow> inheritedText env name
      | Absent \<Rightarrow> ''undefined'')"

fun segmentGenerate :: "env \<Rightarrow> pvalue obj option \<Rightarrow> segment \<Rightarrow> error + string" where
  "segmentGenerate env params (StaticSegment s) = Inr s"
| "segmentGenerate env params (DynamicSegment name) =
     (case params of
        None \<Rightarrow> Inl TypeError
      | Some p \<Rightarrow>
          if ENCODE_AND_DECODE_PATH_SEGMENTS env
          then Inr (encodeURIComponent env (paramText env p name))
          else Inr (paramText env p name))"
| "segmentGenerate env params (StarSegment name) =
     (case params of None \<Rightarrow> Inl TypeError | Some p \<Rightarrow> Inr (paramText env p name))"
| "segmentGenerate env params EpsilonSegment = Inr []"

fun generateSegments :: "env \<Rightarrow> pvalue obj option \<Rightarrow> string \<Rightarrow> segment list \<Rightarrow> error + string" where
  "generateSegments env params output [] = Inr output"
| "generateSegments env params output (segment # rest) =
     (if segment = EpsilonSegment then generateSegments env params output rest
      else
        (case segmentGenerate env params segment of
           Inl e \<Rightarrow> Inl e
         | Inr piece \<Rightarrow> generateSegments env params (output @ ''/'' @ piece) rest))"

text \<open>
  \<open>params.queryParams\<close>, when it is truthy, as the object whose own keys
  \<open>generateQueryString\<close> iterates: the object itself, or, for a string that is not empty,
  its code units under the keys \<open>0\<close>, \<open>1\<close>, ... (the enumerable properties of a string).
  \<open>queryParams\<close> is not a property of \<open>Object.prototype\<close>, so it is never inherited.
\<close>

fun decimal :: "nat \<Rightarrow> string" where
  "decimal n =
     (if n < 10 then [''0123456789'' ! n]
      else decimal (n div 10) @ [''0123456789'' ! (n mod 10)])"

definition stringEntries :: "string \<Rightarrow> queryParams" where
  "stringEntries s = zip (map decimal [0 ..< length s]) (map (\<lambda>c. Scalar [c]) s)"

definition queryOf :: "pvalue obj \<Rightarrow> queryParams option" where
  "queryOf params =
     (case getProp params ''queryParams'' of
        Own (Query q) \<Rightarrow> Some q
      | Own (Text s) \<Rightarrow> if s = [] then None else Some (stringEntries s)
      | Inherited \<Rightarrow> None
      | Absent \<Rightarrow> None)"

text \<open>\<open>generate(name, params)\<close>: the loop over the segments, the leading \<open>/\<close>, and the
  query string, which is appended as \<open>generateQueryString\<close> returns it.\<close>

definition generate :: "env \<Rightarrow> 'h engine \<Rightarrow> string \<Rightarrow> pvalue obj option \<Rightarrow> error + string" where
  "generate env this name params =
     (case getName (names this) name of
        Absent \<Rightarrow> Inl (noRoute name)
      | Inherited \<Rightarrow> Inl TypeError
      | Own route \<Rightarrow>
          (case generateSegments env params [] (segments route) of
             Inl e \<Rightarrow> Inl e
           | Inr output \<Rightarrow>
               (let output' = (case output of [] \<Rightarrow> ''/'' | c # cs \<Rightarrow>
                                 if c = CHR ''/'' then output else CHR ''/'' # output)
                in case params of
                     None \<Rightarrow> Inr output'
                   | Some p \<Rightarrow>
                       (case queryOf p of
                          None \<Rightarrow> Inr output'
                        | Some q \<Rightarrow> Inr (output' @ generateQueryString env q)))))"

subsection \<open>Regular expressions\<close>

text \<open>
  \<open>add\<close> builds the text of a regular expression and \<open>findHandler\<close> matches a path
  against it with \<open>String.prototype.match\<close>. The model reads the fragment of the syntax
  that \<open>add\<close> writes: \<open>^\<close> and \<open>$\<close> (assertions of the start and of the end of the
  input), a backslash before a character of \<open>specials\<close> (that character), the groups
  \<open>([^/]+)\<close> and \<open>(.+)\<close>, and any other character for itself. The groups are greedy:
  the longest run is tried first and shortened while the rest fails. The dot of \<open>(.+)\<close>
  matches every code unit but the line terminators; of the four line terminators of
  JavaScript (U+000A, U+000D, U+2028 and U+2029) the first two are code units of the model.
\<close>

datatype rx = RChar char | RStart | REnd | RDynamic | RStar

fun compileRegex :: "string \<Rightarrow> rx list option" where
  "compileRegex [] = Some []"
| "compileRegex (c # cs) =
     (if c = CHR 0x5C then
        (case cs of
           [] \<Rightarrow> None
         | d # rest \<Rightarrow>
             if d \<in> set specials then map_option (Cons (RChar d)) (compileRegex rest) else None)
      else if c = CHR ''^'' then map_option (Cons RStart) (compileRegex cs)
      else if c = CHR ''$'' then map_option (Cons REnd) (compileRegex cs)
      else if c = CHR ''('' then
        (if take 6 cs = ''[^/]+)'' then map_option (Cons RDynamic) (compileRegex (drop 6 cs))
         else if take 3 cs = ''.+)'' then map_option (Cons RStar) (compileRegex (drop 3 cs))
         else None)
      else if c = CHR ''/'' then map_option (Cons (RChar c)) (compileRegex cs)
      else if c \<in> set specials then None
      else map_option (Cons (RChar c)) (compileRegex cs))"

text \<open>\<open>greedy ok k acc s\<close>: the group has taken \<open>acc\<close> and goes on over \<open>s\<close> while
  \<open>ok\<close> holds; \<open>k\<close> matches what follows the group and returns the later captures.\<close>

fun greedy ::
  "(char \<Rightarrow> bool) \<Rightarrow> (string \<Rightarrow> string list option) \<Rightarrow> string \<Rightarrow> string
   \<Rightarrow> string list option" where
  "greedy ok k acc [] = (if acc = [] then None else map_option (Cons acc) (k []))"
| "greedy ok k acc (c # cs) =
     (if ok c then
        (case greedy ok k (acc @ [c]) cs of
           Some r \<Rightarrow> Some r
         | None \<Rightarrow> if acc = [] then None else map_option (Cons acc) (k (c # cs)))
      else if acc = [] then None else map_option (Cons acc) (k (c # cs)))"

definition dotMatches :: "char \<Rightarrow> bool" where
  "dotMatches c = (c \<noteq> CHR 0x0A \<and> c \<noteq> CHR 0x0D)"

text \<open>\<open>matchFrom r atStart s\<close>: the captures when \<open>r\<close> matches a prefix of \<open>s\<close>;
  \<open>atStart\<close> says that \<open>s\<close> is the whole input.\<close>

fun matchFrom :: "rx list \<Rightarrow> bool \<Rightarrow> string \<Rightarrow> string list option" where
  "matchFrom [] atStart s = Some []"
| "matchFrom (RChar c # r) atStart s =
     (case s of [] \<Rightarrow> None | x # xs \<Rightarrow> if x = c then matchFrom r False xs else None)"
| "matchFrom (RStart # r) atStart s = (if atStart then matchFrom r atStart s else None)"
| "matchFrom (REnd # r) atStart s = (if s = [] then matchFrom r atStart s else None)"
| "matchFrom (RDynamic # r) atStart s =
     greedy (\<lambda>c. c \<noteq> CHR ''/'') (matchFrom r False) [] s"
| "matchFrom (RStar # r) atStart s = greedy dotMatches (matchFrom r False) [] s"

text \<open>The search for the leftmost match, from every position of the input in turn.\<close>

fun searchFrom :: "rx list \<Rightarrow> bool \<Rightarrow> string \<Rightarrow> string list option" where
  "searchFrom r atStart [] = matchFrom r atStart []"
| "searchFrom r atStart (c # cs) =
     (case matchFrom r atStart (c # cs) of
        Some groups \<Rightarrow> Some groups
      | None \<Rightarrow> searchFrom r False cs)"

text \<open>
  \<open>path.match(regex)\<close>: \<open>None\<close> is \<open>null\<close>, and \<open>Some groups\<close> holds the captures
  \<open>captures[1]\<close>, \<open>captures[2]\<close>, ... (the whole match \<open>captures[0]\<close> is never read). An
  \<open>undefined\<close> regex matches the empty text and has no group; a text outside the
  fragment above, which \<open>add\<close> does not write, is answered with \<open>None\<close>.
\<close>

definition js_match :: "string option \<Rightarrow> string \<Rightarrow> string list option" where
  "js_match re s =
     (case re of
        None \<Rightarrow> Some []
      | Some source \<Rightarrow>
          (case compileRegex source of None \<Rightarrow> None | Some r \<Rightarrow> searchFrom r True s))"

subsection \<open>Recognition\<close>

record 'h result =
  handler :: 'h
  params :: "string option obj"
  isDynamic :: bool

record 'h recognizeResults =
  results :: "'h result list"
  queryParams :: queryParams

text \<open>The inner loop of \<open>findHandler\<close> over the names of one handler. Reading
  \<open>captures[currentCapture]\<close> throws \<open>TypeError\<close> when \<open>captures\<close> is \<open>null\<close>; a
  capture past the last group is \<open>undefined\<close> (\<open>None\<close>), which
  \<open>decodeURIComponent\<close> reads as the text \<open>undefined\<close>.\<close>

fun nameLoop ::
  "env \<Rightarrow> string list option \<Rightarrow> nat \<Rightarrow> string list \<Rightarrow> bool list \<Rightarrow> string option obj
   \<Rightarrow> error + (string option obj \<times> nat)" where
  "nameLoop env captures currentCapture [] sds ps = Inr (ps, currentCapture)"
| "nameLoop env captures currentCapture (name # rest) sds ps =
     (case captures of
        None \<Rightarrow> Inl TypeError
      | Some groups \<Rightarrow>
          (let shouldDecode = (case sds of [] \<Rightarrow> False | b # _ \<Rightarrow> b);
               capture = (if currentCapture - 1 < length groups
                          then Some (groups ! (currentCapture - 1)) else None)
           in if ENCODE_AND_DECODE_PATH_SEGMENTS env \<and> shouldDecode then
                (case decodeURIComponent env
                        (case capture of Some c \<Rightarrow> c | None \<Rightarrow> ''undefined'') of
                   None \<Rightarrow> Inl URIError
                 | Some v \<Rightarrow>
                     nameLoop env captures (currentCapture + 1) rest (tl sds)
                       (setPrimitive ps name (Some v)))
              else
                nameLoop env captures (currentCapture + 1) rest (tl sds)
                  (setPrimitive ps name capture)))"

fun handlerLoop ::
  "env \<Rightarrow> string list option \<Rightarrow> nat \<Rightarrow> 'h handler list \<Rightarrow> error + 'h result list" where
  "handlerLoop env captures currentCapture [] = Inr []"
| "handlerLoop env captures currentCapture (h # hs) =
     (case nameLoop env captures currentCapture (handler.names h) (handler.shouldDecodes h) [] of
        Inl e \<Rightarrow> Inl e
      | Inr (ps, currentCapture') \<Rightarrow>
          (case handlerLoop env captures currentCapture' hs of
             Inl e \<Rightarrow> Inl e
           | Inr rest \<Rightarrow>
               Inr (\<lparr> result.handler = handler.handler h, params = ps,
                      isDynamic = (handler.names h \<noteq> []) \<rparr> # rest)))"

text \<open>\<open>findHandler(state, originalPath, queryParams)\<close>, given the regex of the state and
  the array its \<open>handlers\<close> refers to.\<close>

definition findHandler ::
  "env \<Rightarrow> string option \<Rightarrow> 'h handler list \<Rightarrow> string \<Rightarrow> queryParams
   \<Rightarrow> error + 'h recognizeResults" where
  "findHandler env re hs originalPath qps =
     (case handlerLoop env (js_match re originalPath) 1 hs of
        Inl e \<Rightarrow> Inl e
      | Inr rs \<Rightarrow> Inr \<lparr> results = rs, recognizeResults.queryParams = qps \<rparr>)"

text \<open>
  \<open>sortSolutions\<close>: the comparator is \<open>b.specificity.val - a.specificity.val\<close>, and
  \<open>sort\<close> reads a result that is \<open>NaN\<close> (a value is \<open>undefined\<close>, or both are
  \<open>Infinity\<close>) as \<open>0\<close>. \<open>Array.prototype.sort\<close> is modelled as the stable insertion
  sort; reading \<open>val\<close> of a missing \<open>specificity\<close> throws \<open>TypeError\<close>.
\<close>

definition handlersOf :: "state list \<Rightarrow> nat \<Rightarrow> nat option" where
  "handlersOf sts s = (if s < length sts then state.handlers (sts ! s) else None)"

definition regexOf :: "state list \<Rightarrow> nat \<Rightarrow> string option" where
  "regexOf sts s = (if s < length sts then state.regex (sts ! s) else None)"

definition specificityOf :: "state list \<Rightarrow> nat \<Rightarrow> number option option" where
  "specificityOf sts s = (if s < length sts then state.specificity (sts ! s) else None)"

fun minus :: "number option \<Rightarrow> number option \<Rightarrow> int" where
  "minus (Some (Finite x)) (Some (Finite y)) = int x - int y"
| "minus (Some Infinity) (Some (Finite y)) = 1"
| "minus (Some (Finite x)) (Some Infinity) = - 1"
| "minus (Some Infinity) (Some Infinity) = 0"
| "minus None y = 0"
| "minus x None = 0"

definition valOf :: "state list \<Rightarrow> nat \<Rightarrow> number option" where
  "valOf sts s = (case specificityOf sts s of Some v \<Rightarrow> v | None \<Rightarrow> None)"

definition compareSolutions :: "state list \<Rightarrow> nat \<Rightarrow> nat \<Rightarrow> int" where
  "compareSolutions sts a b = minus (valOf sts b) (valOf sts a)"

fun insertSolution :: "state list \<Rightarrow> nat \<Rightarrow> nat list \<Rightarrow> nat list" where
  "insertSolution sts a [] = [a]"
| "insertSolution sts a (b # rest) =
     (if compareSolutions sts a b \<le> 0 then a # b # rest
      else b # insertSolution sts a rest)"

definition sortSolutions :: "state list \<Rightarrow> nat list \<Rightarrow> error + nat list" where
  "sortSolutions sts solutions =
     (if length solutions \<ge> 2 \<and> list_ex (\<lambda>s. specificityOf sts s = None) solutions
      then Inl TypeError
      else Inr (foldr (insertSolution sts) solutions []))"

text \<open>The walk over the characters of the path, left when no state remains.\<close>

fun walk :: "state list \<Rightarrow> nat list \<Rightarrow> string \<Rightarrow> nat list" where
  "walk sts current [] = current"
| "walk sts current (ch # rest) =
     (let next = recognizeChar sts current ch
      in if next = [] then [] else walk sts next rest)"

text \<open>The first part of \<open>recognize\<close>: the fragment and the query are cut off, the path
  gets its leading \<open>/\<close>, and it is normalized (or decoded, when the switch is off).
  The result is \<open>(path, originalPath, queryParams)\<close>.\<close>

definition preparePath :: "env \<Rightarrow> string \<Rightarrow> error + string \<times> string \<times> queryParams" where
  "preparePath env p =
     (let p1 = takeWhile (\<lambda>c. c \<noteq> CHR ''#'') p;
          p2 = takeWhile (\<lambda>c. c \<noteq> CHR ''?'') p1
      in case (if CHR ''?'' \<in> set p1
               then parseQueryString env (tl (dropWhile (\<lambda>c. c \<noteq> CHR ''?'') p1))
               else Inr []) of
           Inl e \<Rightarrow> Inl e
         | Inr qps \<Rightarrow>
             (let p3 = (case p2 of [] \<Rightarrow> ''/'' | c # cs \<Rightarrow>
                          if c = CHR ''/'' then p2 else CHR ''/'' # p2)
              in if ENCODE_AND_DECODE_PATH_SEGMENTS env
                 then Inr (normalizePath env p3, p3, qps)
                 else (case decodeURI env p3 of
                         None \<Rightarrow> Inl URIError
                       | Some d \<Rightarrow> Inr (d, d, qps))))"

text \<open>The second part: a trailing \<open>/\<close> of a path longer than one character is dropped;
  \<open>originalPath\<close> is cut at the same index. The result is
  \<open>(path, originalPath, isSlashDropped)\<close>.\<close>

definition dropSlash :: "string \<Rightarrow> string \<Rightarrow> string \<times> string \<times> bool" where
  "dropSlash p originalPath =
     (let pathLen = length p
      in if pathLen > 1 \<and> p ! (pathLen - 1) = CHR ''/''
         then (take (pathLen - 1) p, take (pathLen - 1) originalPath, True)
         else (p, originalPath, False))"

text \<open>The solutions: the accepting states among the states the walk ends in.\<close>

definition solutionsOf :: "state list \<Rightarrow> string \<Rightarrow> nat list" where
  "solutionsOf sts p = filter (\<lambda>s. handlersOf sts s \<noteq> None) (walk sts [0] p)"

text \<open>The path \<open>findHandler\<close> gets: the \<open>/\<close> is put back when it was dropped and the
  text of the regex ends in \<open>(.+)$\<close>.\<close>

definition extractionPath :: "string \<Rightarrow> string \<Rightarrow> bool \<Rightarrow> string" where
  "extractionPath source originalPath isSlashDropped =
     (if isSlashDropped \<and> drop (length source - 5) source = ''(.+)$''
      then originalPath @ ''/'' else originalPath)"

definition recognize :: "env \<Rightarrow> 'h engine \<Rightarrow> string \<Rightarrow> error + 'h recognizeResults option" where
  "recognize env this p =
     (case preparePath env p of
        Inl e \<Rightarrow> Inl e
      | Inr (p4, originalPath, qps) \<Rightarrow>
          (case dropSlash p4 originalPath of
             (p5, originalPath', isSlashDropped) \<Rightarrow>
               (case sortSolutions (states this) (solutionsOf (states this) p5) of
                  Inl e \<Rightarrow> Inl e
                | Inr [] \<Rightarrow> Inr None
                | Inr (s # _) \<Rightarrow>
                    (case regexOf (states this) s of
                       None \<Rightarrow> Inl TypeError
                     | Some source \<Rightarrow>
                         (case handlersOf (states this) s of
                            None \<Rightarrow> Inr None
                          | Some ref \<Rightarrow>
                              map_sum id Some
                                (findHandler env (Some source) (arrayAt this ref)
                                   (extractionPath source originalPath' isSlashDropped)
                                   qps))))))"

subsection \<open>Notions used in the statements\<close>

text \<open>The score and the segments that \<open>parse\<close> computes for a pattern, and the state
  that \<open>add\<close> makes accepting for a batch.\<close>

definition scoreOf :: "env \<Rightarrow> string \<Rightarrow> number" where
  "scoreOf env pattern = snd (snd (snd (parse env pattern [] [])))"

definition segmentsOf :: "env \<Rightarrow> string \<Rightarrow> segment list" where
  "segmentsOf env pattern = fst (parse env pattern [] [])"

definition acceptingState :: "env \<Rightarrow> 'h engine \<Rightarrow> 'h route list \<Rightarrow> nat" where
  "acceptingState env this routes = currentState (addLoop env this routes)"

text \<open>The score in the words of the specification: a digit for every segment by its
  kind, the digits in the order of the segments, read as an integer.\<close>

fun spec_digit :: "segment \<Rightarrow> char" where
  "spec_digit (StarSegment name) = CHR ''1''"
| "spec_digit EpsilonSegment = CHR ''2''"
| "spec_digit (DynamicSegment name) = CHR ''3''"
| "spec_digit (StaticSegment s) = CHR ''4''"

definition spec_specificity :: "segment list \<Rightarrow> nat" where
  "spec_specificity segs = digitsValue (map spec_digit segs)"

fun numberLe :: "number \<Rightarrow> number \<Rightarrow> bool" where
  "numberLe (Finite x) (Finite y) = (x \<le> y)"
| "numberLe x Infinity = True"
| "numberLe Infinity (Finite y) = False"

text \<open>Every named route refers to an array of the heap. \<open>add\<close> establishes this and
  \<open>add\<close>, \<open>handlersFor\<close> and a write into an array keep it.\<close>

definition registryOk :: "'h engine \<Rightarrow> bool" where
  "registryOk this =
     list_all (\<lambda>(n, r). namedRoute.handlers r < length (arrays this)) (names this)"

subsection \<open>Engines of the examples\<close>

definition twoBatches :: "string engine" where
  "twoBatches =
     add asciiEnv
       (add asciiEnv RouteRecognizer [\<lparr> path = ''/posts/new'', handler = ''new'' \<rparr>] None)
       [\<lparr> path = ''/posts/:id'', handler = ''show'' \<rparr>] (Some ''post'')"

definition mixedBatch :: "string route list" where
  "mixedBatch =
     [\<lparr> path = ''/posts'', handler = ''posts'' \<rparr>, \<lparr> path = ''/:id'', handler = ''post'' \<rparr>]"

text \<open>What the loop of \<open>parse\<close> makes of one piece of the pattern: the segment, the
  name it pushes and the decode flag it pushes.\<close>

definition classify :: "env \<Rightarrow> string \<Rightarrow> segment" where
  "classify env piece =
     (case matchMarked CHR '':'' piece of
        Some name \<Rightarrow> DynamicSegment (normalizeSegment env name)
      | None \<Rightarrow>
          (case matchMarked CHR ''*'' piece of
             Some name \<Rightarrow> StarSegment name
           | None \<Rightarrow>
               if piece = [] then EpsilonSegment
               else StaticSegment (normalizeSegment env piece)))"

definition pieceNames :: "string \<Rightarrow> string list" where
  "pieceNames piece =
     (case matchMarked CHR '':'' piece of
        Some name \<Rightarrow> [name]
      | None \<Rightarrow> (case matchMarked CHR ''*'' piece of Some name \<Rightarrow> [name] | None \<Rightarrow> []))"

definition pieceDecodes :: "string \<Rightarrow> bool list" where
  "pieceDecodes piece =
     (case matchMarked CHR '':'' piece of
        Some name \<Rightarrow> [True]
      | None \<Rightarrow> (case matchMarked CHR ''*'' piece of Some name \<Rightarrow> [False] | None \<Rightarrow> []))"

definition pieces :: "string \<Rightarrow> string list" where
  "pieces pattern =
     js_split CHR ''/''
       (case pattern of [] \<Rightarrow> [] | c # cs \<Rightarrow> if c = CHR ''/'' then cs else pattern)"

definition seventeenStars :: string where
  "seventeenStars =
     ''*a/*a/*a/*a/*a/*a/*a/*a/*a/*a/*a/*a/*a/*a/*a/*a/*a''"

text \<open>The first state of a list of solutions has the greatest score of the list.\<close>

definition headIsMax :: "state list \<Rightarrow> nat list \<Rightarrow> bool" where
  "headIsMax sts ys =
     (case ys of
        [] \<Rightarrow> True
      | s # rest \<Rightarrow> list_all (\<lambda>t. case (valOf sts t, valOf sts s) of
                                     (Some vt, Some vs) \<Rightarrow> numberLe vt vs | _ \<Rightarrow> False) ys)"

text \<open>The segments of a batch, those that are not \<open>EpsilonSegment\<close>, and the text of
  the regex that \<open>add\<close> builds from them.\<close>

definition batchSegments :: "env \<Rightarrow> 'h route list \<Rightarrow> segment list" where
  "batchSegments env routes = concat (map (\<lambda>r. segmentsOf env (route.path r)) routes)"

definition solid :: "segment list \<Rightarrow> segment list" where
  "solid segs = filter (\<lambda>seg. seg \<noteq> EpsilonSegment) segs"

definition regexBody :: "segment list \<Rightarrow> string" where
  "regexBody segs = concat (map (\<lambda>seg. ''/'' @ segmentRegex seg) (solid segs))"

definition batchRegex :: "segment list \<Rightarrow> string" where
  "batchRegex segs = ''^'' @ regexBody segs @ (if solid segs = [] then ''/'' else []) @ ''$''"

definition endsWithStar :: "segment list \<Rightarrow> bool" where
  "endsWithStar segs = (case rev (solid segs) of StarSegment name # rest \<Rightarrow> True | _ \<Rightarrow> False)"

definition filesEngine :: "string engine" where
  "filesEngine =
     add asciiEnv RouteRecognizer [\<lparr> path = ''/files/*path'', handler = ''files'' \<rparr>] (Some ''files'')"

text \<open>
  The double nearest to an integer \<open>n\<close>. Below \<open>2^53\<close> it is \<open>n\<close>. From there on,
  with \<open>ulp\<close> the distance of the doubles around \<open>n\<close> (they are the multiples of
  \<open>ulp = 2^(bitlen n - 53)\<close>), it is a multiple of \<open>ulp\<close> below \<open>2^1024\<close> that is at
  most half an \<open>ulp\<close> away from \<open>n\<close> and, when it is exactly that far, has an even
  significand; it is \<open>Infinity\<close> when \<open>n\<close> is \<open>2^1024 - 2^970\<close> or more.
\<close>

definition nearestDouble :: "nat \<Rightarrow> number \<Rightarrow> bool" where
  "nearestDouble n d =
     (if n < 2 ^ 53 then d = Finite n
      else
        (let ulp = 2 ^ (bitlen n - 53)
         in case d of
              Finite m \<Rightarrow>
                ulp dvd m \<and> m < 2 ^ 1024 \<and> 2 * m \<le> 2 * n + ulp \<and> 2 * n \<le> 2 * m + ulp
                \<and> ((2 * m = 2 * n + ulp \<or> 2 * n = 2 * m + ulp) \<longrightarrow> even (m div ulp))
            | Infinity \<Rightarrow> 2 ^ 1024 \<le> n + 2 ^ 970))"




subsection \<open>Notions of the round trip\<close>














text \<open>
  A sequence of registrations, each a batch of routes with its \<open>options.as\<close>; and the
  registrations that end neither in the state \<open>s\<close> nor under the name \<open>name\<close>, so that
  they leave what \<open>s\<close> accepts and what \<open>name\<close> generates as they are.
\<close>

fun addAll :: "env \<Rightarrow> 'h engine \<Rightarrow> ('h route list \<times> string option) list \<Rightarrow> 'h engine" where
  "addAll env this [] = this"
| "addAll env this ((routes, alias) # batches) = addAll env (add env this routes alias) batches"


















text \<open>The registrations of an example: a static route, then the batch of two routes
  that is registered under the name \<open>rest\<close>, then another static route.\<close>

definition exampleBefore :: "(string route list \<times> string option) list" where
  "exampleBefore = [([\<lparr> path = ''/new'', handler = ''new'' \<rparr>], None)]"




section \<open>Properties\<close>

subsection \<open>Reading and writing properties\<close>

lemma getProp_update_same: "getProp (AList.update k v obj) k = Own v"
  by (simp add: getProp_def update_conv')

lemma getProp_setPrimitive_same:
  "k \<noteq> ''__proto__'' \<Longrightarrow> getProp (setPrimitive obj k v) k = Own v"
  by (simp add: setPrimitive_def getProp_update_same)

subsection \<open>The query-string codec\<close>
















text \<open>
  C6 at its failing input: for an array value the pair is built from the key as it is,
  while the scalar branch percent-encodes the same key.
\<close>

theorem generateQueryString_array_key_raw:
  "generateQueryString asciiEnv [(''a b'', Array [''1'', ''2''])] = ''?a b[]=1&a b[]=2''
   \<and> generateQueryString asciiEnv [(''a b'', Scalar ''1'')] = ''?a%20b=1''"
  by code_simp

subsection \<open>Evaluation on concrete input\<close>

text \<open>The definitions that the simplifier unfolds to run the model.\<close>

lemmas parse_eval = parse_def matchMarked_def toNumber_def digitsValue_def roundToDouble_def
lemmas env_eval = asciiEnv_def asciiNormalizeSegment_def escapeByte_def asciiEncode_def
  uriUnreserved_def hexDigit_def hexValue_def
lemmas put_eval = put_def get_def nextOf_def specOf_def isEqualCharSpec_def charSpecOf_def
  State_def slashSpec_def Let_def
lemmas add_eval = add_def addLoop_def RouteRecognizer_def escapeRegex_def specials_def
lemmas recognize_eval = recognize_def preparePath_def dropSlash_def solutionsOf_def
  recognizeChar_def match_def specMatches_def handlersOf_def regexOf_def specificityOf_def
  sortSolutions_def extractionPath_def findHandler_def js_match_def arrayAt_def
  setPrimitive_def dotMatches_def valOf_def compareSolutions_def
lemmas registry_eval = getProp_def getName_def objectPrototypeKeys_def handlersFor_def
  hasRoute_def generate_def noRoute_def

subsection \<open>The named-route registry\<close>

lemma getName_Own: "getName registry name = Own route \<longleftrightarrow> getProp registry name = Own route"
  by (auto simp: getName_def getProp_def split: option.splits)

lemma unregistered_plain_name:
  assumes "getName (names this) name = Absent"
  shows "generate env this name ps = Inl (noRoute name)
         \<and> handlersFor this name = (Inl (noRoute name), this) \<and> \<not> hasRoute this name"
  using assms by (simp add: generate_def handlersFor_def hasRoute_def)

text \<open>
  C9 at its failing input: \<open>this.names\<close> is created by \<open>{}\<close>, so the name
  \<open>constructor\<close>, which was never registered, is found through \<open>Object.prototype\<close>:
  \<open>hasRoute\<close> answers \<open>true\<close>, and \<open>generate\<close> and \<open>handlersFor\<close> throw a
  \<open>TypeError\<close> that does not carry the name. For a name that is not inherited the three
  calls do what the claim says (\<open>unregistered_plain_name\<close>).
\<close>

theorem unregistered_inherited_name:
  "hasRoute (RouteRecognizer :: unit engine) ''constructor''
   \<and> generate asciiEnv (RouteRecognizer :: unit engine) ''constructor'' None = Inl TypeError
   \<and> handlersFor (RouteRecognizer :: unit engine) ''constructor'' = (Inl TypeError, RouteRecognizer)"
  by (simp add: registry_eval RouteRecognizer_def)

lemma getProp_Own_mem: "getProp obj k = Own v \<Longrightarrow> (k, v) \<in> set obj"
  by (auto simp: getProp_def split: option.splits if_splits dest: map_of_SomeD)

lemma registryOk_ref:
  "registryOk this \<Longrightarrow> getProp (names this) name = Own r \<Longrightarrow>
     namedRoute.handlers r < length (arrays this)"
  by (auto simp: registryOk_def list_all_iff dest!: getProp_Own_mem)

lemma registryOk_new: "registryOk RouteRecognizer"
  by (simp add: registryOk_def RouteRecognizer_def)

lemma set_update_cases:
  "(k, v) \<in> set (AList.update k' v' al) \<Longrightarrow> (k, v) \<in> set al \<or> (k = k' \<and> v = v')"
  by (induction al) (auto split: if_splits)

lemma registryOk_add: "registryOk this \<Longrightarrow> registryOk (add env this routes alias)"
  by (auto simp: registryOk_def add_def Let_def list_all_iff split: option.splits
      dest!: set_update_cases)

lemma registryOk_handlersFor: "registryOk this \<Longrightarrow> registryOk (snd (handlersFor this name))"
  by (auto simp: registryOk_def handlersFor_def list_all_iff split: property.splits)

lemma registryOk_writeArray: "registryOk this \<Longrightarrow> registryOk (writeArray this ref content)"
  by (auto simp: registryOk_def writeArray_def list_all_iff)

text \<open>
  C10. For a registered name \<open>handlersFor\<close> returns a reference to a new array (no
  reference of the engine equals it) that holds the registered handlers in their order; it
  changes neither the registry nor the states; and whatever the caller then writes into the
  returned array, the next \<open>handlersFor\<close> returns the registered handlers again.
\<close>

theorem handlersFor_fresh_copy:
  assumes "registryOk this" and "getProp (names this) name = Own r"
  shows "\<exists>this'. handlersFor this name = (Inr (length (arrays this)), this')
          \<and> arrayAt this' (length (arrays this)) = arrayAt this (namedRoute.handlers r)
          \<and> names this' = names this \<and> states this' = states this
          \<and> (\<forall>content. \<exists>ref this''.
                handlersFor (writeArray this' (length (arrays this)) content) name = (Inr ref, this'')
                \<and> arrayAt this'' ref = arrayAt this (namedRoute.handlers r))"
proof -
  have lt: "namedRoute.handlers r < length (arrays this)"
    using assms by (rule registryOk_ref)
  have own: "getName (names this) name = Own r"
    using assms(2) by (simp add: getName_Own)
  show ?thesis
    using own lt
    by (simp add: handlersFor_def writeArray_def arrayAt_def nth_append)
qed

lemma twoBatches_post:
  "getProp (names twoBatches) ''post'' =
     Own \<lparr> segments = [StaticSegment ''posts'', DynamicSegment ''id''], namedRoute.handlers = 1 \<rparr>"
  by (simp add: twoBatches_def parse_eval env_eval put_eval add_eval getProp_def)

lemma twoBatches_arrays:
  "arrays twoBatches =
     [[\<lparr> handler.handler = ''new'', handler.names = [], handler.shouldDecodes = [] \<rparr>],
      [\<lparr> handler.handler = ''show'', handler.names = [''id''], handler.shouldDecodes = [True] \<rparr>]]"
  by (simp add: twoBatches_def parse_eval env_eval put_eval add_eval)

lemma twoBatches_ok: "registryOk twoBatches"
  unfolding twoBatches_def by (intro registryOk_add registryOk_new)

lemma twoBatches_array: 
  "arrayAt twoBatches (Suc 0) =
     [\<lparr> handler.handler = ''show'', handler.names = [''id''], handler.shouldDecodes = [True] \<rparr>]"
  "length (arrays twoBatches) = 2"
  by (simp_all add: arrayAt_def twoBatches_arrays)

theorem handlersFor_fresh_copy_witness:
  "registryOk twoBatches
   \<and> getProp (names twoBatches) ''post'' =
       Own \<lparr> segments = [StaticSegment ''posts'', DynamicSegment ''id''], namedRoute.handlers = 1 \<rparr>
   \<and> (\<exists>this'. handlersFor twoBatches ''post'' = (Inr 2, this')
        \<and> arrayAt this' 2 =
            [\<lparr> handler.handler = ''show'', handler.names = [''id''], handler.shouldDecodes = [True] \<rparr>]
        \<and> (\<forall>content. \<exists>ref this''.
              handlersFor (writeArray this' 2 content) ''post'' = (Inr ref, this'')
              \<and> arrayAt this'' ref =
                  [\<lparr> handler.handler = ''show'', handler.names = [''id''],
                     handler.shouldDecodes = [True] \<rparr>]))"
  using handlersFor_fresh_copy[OF twoBatches_ok twoBatches_post] twoBatches_ok twoBatches_post
  by (auto simp: twoBatches_array)

subsection \<open>The query string that \<open>generate\<close> appends\<close>










subsection \<open>Registration keeps references valid\<close>

lemma getChild_valid: "getChild sts cs spec = Some c \<Longrightarrow> c < length sts"
  by (induction cs) (auto simp: specOf_def split: option.splits if_splits)

lemma put_valid:
  assumes "put sts cur spec = (sts', cur')" and "cur < length sts"
  shows "cur' < length sts' \<and> length sts \<le> length sts'"
  using assms
  by (auto simp: put_def get_def Let_def split: option.splits dest: getChild_valid)

lemma putChars_valid:
  "putChars sts cur s = (sts', cur') \<Longrightarrow> cur < length sts \<Longrightarrow>
     cur' < length sts' \<and> length sts \<le> length sts'"
proof (induction s arbitrary: sts cur)
  case Nil
  then show ?case by simp
next
  case (Cons ch s)
  obtain sts1 cur1 where p: "put sts cur (charSpecOf None (Some [ch]) False) = (sts1, cur1)"
    by (cases "put sts cur (charSpecOf None (Some [ch]) False)")
  from put_valid[OF p Cons.prems(2)] have v: "cur1 < length sts1" "length sts \<le> length sts1"
    by simp_all
  from Cons.prems(1) p have "putChars sts1 cur1 s = (sts', cur')" by simp
  from Cons.IH[OF this v(1)] v(2) show ?case by simp
qed

lemma eachChar_valid:
  "eachChar seg sts cur = (sts', cur') \<Longrightarrow> cur < length sts \<Longrightarrow>
     cur' < length sts' \<and> length sts \<le> length sts'"
  by (cases seg) (auto dest: putChars_valid put_valid)

lemma addSegments_valid:
  "addSegments sts cur re emp segs = (sts', cur', re', emp') \<Longrightarrow> cur < length sts \<Longrightarrow>
     cur' < length sts' \<and> length sts \<le> length sts'"
proof (induction segs arbitrary: sts cur re emp)
  case Nil
  then show ?case by simp
next
  case (Cons seg segs)
  show ?case
  proof (cases "seg = EpsilonSegment")
    case True
    with Cons show ?thesis by simp
  next
    case False
    obtain sts1 cur1 where p: "put sts cur slashSpec = (sts1, cur1)"
      by (cases "put sts cur slashSpec")
    obtain sts2 cur2 where e: "eachChar seg sts1 cur1 = (sts2, cur2)"
      by (cases "eachChar seg sts1 cur1")
    from put_valid[OF p Cons.prems(2)] have v1: "cur1 < length sts1" "length sts \<le> length sts1"
      by simp_all
    from eachChar_valid[OF e v1(1)] have v2: "cur2 < length sts2" "length sts1 \<le> length sts2"
      by simp_all
    from Cons.prems(1) False p e
    have "addSegments sts2 cur2 (re @ ''/'' @ segmentRegex seg) False segs = (sts', cur', re', emp')"
      by simp
    from Cons.IH[OF this v2(1)] v1(2) v2(2) show ?thesis by simp
  qed
qed

lemma addRoutes_valid:
  "currentState a < length (statesNow a) \<Longrightarrow>
     currentState (addRoutes env a routes) < length (statesNow (addRoutes env a routes))"
proof (induction routes arbitrary: a)
  case Nil
  then show ?case by simp
next
  case (Cons r routes)
  obtain segs ns sds val where p: "parse env (route.path r) [] [] = (segs, ns, sds, val)"
    by (cases "parse env (route.path r) [] []") auto
  obtain sts cur re emp where
    s: "addSegments (statesNow a) (currentState a) (regexNow a) (isEmpty a) segs = (sts, cur, re, emp)"
    by (cases "addSegments (statesNow a) (currentState a) (regexNow a) (isEmpty a) segs") auto
  from addSegments_valid[OF s Cons.prems] have "cur < length sts" by simp
  then show ?case using p s by (simp add: Cons.IH)
qed

lemma addRoutes_specificityVal:
  "routes \<noteq> [] \<Longrightarrow>
     specificityVal (addRoutes env a routes) = Some (scoreOf env (route.path (last routes)))"
proof (induction routes arbitrary: a)
  case Nil
  then show ?case by simp
next
  case (Cons r routes)
  show ?case
  proof (cases "routes = []")
    case True
    then show ?thesis
      by (auto simp: scoreOf_def split: prod.splits)
  next
    case False
    then show ?thesis
      by (auto simp: Cons.IH split: prod.splits)
  qed
qed

lemma addLoop_valid:
  assumes "states this \<noteq> []"
  shows "currentState (addLoop env this routes) < length (statesNow (addLoop env this routes))"
proof -
  let ?a0 = "\<lparr> statesNow = states this, currentState = 0, regexNow = ''^'',
                specificityVal = None, handlersNow = [], allSegments = [], isEmpty = True \<rparr>"
  have "currentState ?a0 < length (statesNow ?a0)" using assms by simp
  from addRoutes_valid[OF this, of env routes]
  have v: "currentState (addRoutes env ?a0 routes) < length (statesNow (addRoutes env ?a0 routes))" .
  show ?thesis
  proof (cases "isEmpty (addRoutes env ?a0 routes)")
    case True
    obtain sts cur where
      p: "put (statesNow (addRoutes env ?a0 routes)) (currentState (addRoutes env ?a0 routes)) slashSpec
            = (sts, cur)"
      by (cases "put (statesNow (addRoutes env ?a0 routes)) (currentState (addRoutes env ?a0 routes)) slashSpec")
    from put_valid[OF p v] show ?thesis using True p by (simp add: addLoop_def Let_def)
  next
    case False
    then show ?thesis using v by (simp add: addLoop_def Let_def)
  qed
qed

lemma addLoop_specificityVal:
  "routes \<noteq> [] \<Longrightarrow>
     specificityVal (addLoop env this routes) = Some (scoreOf env (route.path (last routes)))"
  by (auto simp: addLoop_def Let_def addRoutes_specificityVal split: prod.splits)

lemma add_accepting_state:
  assumes "states this \<noteq> []"
  shows "specificityOf (states (add env this routes alias)) (acceptingState env this routes)
           = Some (specificityVal (addLoop env this routes))
         \<and> handlersOf (states (add env this routes alias)) (acceptingState env this routes)
           = Some (length (arrays this))
         \<and> regexOf (states (add env this routes alias)) (acceptingState env this routes)
           = Some (regexNow (addLoop env this routes) @ ''$'')
         \<and> arrayAt (add env this routes alias) (length (arrays this))
           = handlersNow (addLoop env this routes)"
  using addLoop_valid[OF assms, of env routes]
  by (simp add: add_def Let_def specificityOf_def handlersOf_def regexOf_def acceptingState_def
      arrayAt_def)

text \<open>
  C8. After \<open>add\<close> of a batch with at least one route, the state that the batch makes
  accepting (the one that gets the handlers of the batch) holds one score, that of the last
  route of the batch.
\<close>

theorem add_stores_score_of_last_route:
  assumes "routes \<noteq> []" and "states this \<noteq> []"
  shows "specificityOf (states (add env this routes alias)) (acceptingState env this routes)
           = Some (Some (scoreOf env (route.path (last routes))))
         \<and> handlersOf (states (add env this routes alias)) (acceptingState env this routes)
           = Some (length (arrays this))"
  using add_accepting_state[OF assms(2), of env routes "alias"] addLoop_specificityVal[OF assms(1)]
  by simp

lemma mixedBatch_scores:
  "scoreOf asciiEnv (route.path (hd mixedBatch)) = Finite 4"
  "scoreOf asciiEnv (route.path (last mixedBatch)) = Finite 3"
  by (simp_all add: mixedBatch_def scoreOf_def parse_eval env_eval)

lemma mixedBatch_state: "acceptingState asciiEnv RouteRecognizer mixedBatch = 8"
  by (simp add: mixedBatch_def acceptingState_def parse_eval env_eval put_eval add_eval)

theorem add_stores_score_of_last_route_witness:
  "mixedBatch \<noteq> [] \<and> states (RouteRecognizer :: string engine) \<noteq> []
   \<and> scoreOf asciiEnv (route.path (hd mixedBatch)) = Finite 4
   \<and> specificityOf (states (add asciiEnv RouteRecognizer mixedBatch None)) 8 = Some (Some (Finite 3))
   \<and> handlersOf (states (add asciiEnv RouteRecognizer mixedBatch None)) 8 = Some 0"
proof -
  have 1: "mixedBatch \<noteq> []" by (simp add: mixedBatch_def)
  have 2: "states (RouteRecognizer :: string engine) \<noteq> []" by (simp add: RouteRecognizer_def)
  have 3: "length (arrays (RouteRecognizer :: string engine)) = 0" by (simp add: RouteRecognizer_def)
  show ?thesis
    using add_stores_score_of_last_route[OF 1 2, of asciiEnv None] 1 2 3
    by (simp add: mixedBatch_scores mixedBatch_state)
qed

subsection \<open>Extraction against the regex\<close>

text \<open>
  C3 at its failing input. \<open>escapeRegex\<close> leaves \<open>$\<close> (and \<open>^\<close>) as they are, so the
  regex of the pattern \<open>/a$b/:id\<close> asserts the end of the input before \<open>b\<close> and matches
  no path, while the automaton accepts \<open>/a$b/1\<close>: \<open>findHandler\<close> reads
  \<open>captures[1]\<close> of \<open>null\<close>. For \<open>/a$b\<close>, without parameters, \<open>recognize\<close>
  returns the handler although the regex does not match the path.
\<close>

theorem recognize_unescaped_dollar:
  "recognize asciiEnv
     (add asciiEnv RouteRecognizer [\<lparr> path = ''/a$b/:id'', handler = ''h'' \<rparr>] None) ''/a$b/1''
     = Inl TypeError
   \<and> recognize asciiEnv
       (add asciiEnv RouteRecognizer [\<lparr> path = ''/a$b'', handler = ''h'' \<rparr>] None) ''/a$b''
     = Inr (Some \<lparr> results = [\<lparr> result.handler = ''h'', params = [], isDynamic = False \<rparr>],
                   recognizeResults.queryParams = [] \<rparr>)
   \<and> regexOf (states (add asciiEnv RouteRecognizer [\<lparr> path = ''/a$b'', handler = ''h'' \<rparr>] None)) 4
     = Some ''^/a$b$''
   \<and> js_match (Some ''^/a$b$'') ''/a$b'' = None"
  by (simp add: parse_eval env_eval put_eval add_eval recognize_eval)

subsection \<open>The score\<close>

lemma parseLoop_eq:
  "parseLoop env ps rs ns sds val =
     (rs @ map (classify env) ps, ns @ concat (map pieceNames ps),
      sds @ concat (map pieceDecodes ps), val @ map (spec_digit \<circ> classify env) ps)"
  by (induction ps arbitrary: rs ns sds val)
     (auto simp: classify_def pieceNames_def pieceDecodes_def split: option.splits)

lemma parse_eq:
  "parse env pattern [] [] =
     (map (classify env) (pieces pattern), concat (map pieceNames (pieces pattern)),
      concat (map pieceDecodes (pieces pattern)),
      toNumber (map (spec_digit \<circ> classify env) (pieces pattern)))"
  by (simp add: parse_def pieces_def parseLoop_eq Let_def)

lemma scoreOf_eq: "scoreOf env pattern = roundToDouble (spec_specificity (segmentsOf env pattern))"
  by (simp add: scoreOf_def segmentsOf_def parse_eq toNumber_def spec_specificity_def)

lemma spec_digit_small: "of_char (spec_digit seg) - (48::nat) \<le> 4"
  by (cases seg) simp_all

lemma digits_fold_bound:
  assumes "\<forall>c \<in> set s. of_char c - (48::nat) \<le> 4"
  shows "9 * foldl (\<lambda>n c. 10 * n + (of_char c - 48)) (a::nat) s + 4 \<le> (9 * a + 4) * 10 ^ length s"
  using assms
proof (induction s arbitrary: a)
  case Nil
  then show ?case by simp
next
  case (Cons c s)
  have d: "of_char c - (48::nat) \<le> 4" using Cons.prems by simp
  have "9 * foldl (\<lambda>n c. 10 * n + (of_char c - 48)) (10 * a + (of_char c - 48)) s + 4
          \<le> (9 * (10 * a + (of_char c - 48)) + 4) * 10 ^ length s"
    using Cons.IH[of "10 * a + (of_char c - 48)"] Cons.prems by simp
  also have "\<dots> \<le> ((9 * a + 4) * 10) * 10 ^ length s"
    using d by (intro mult_right_mono) auto
  finally show ?case by (simp add: algebra_simps)
qed

lemma spec_specificity_bound: "9 * spec_specificity segs + 4 \<le> 4 * 10 ^ length segs"
  using digits_fold_bound[of "map spec_digit segs" 0]
  by (simp add: spec_specificity_def digitsValue_def spec_digit_small)

lemma spec_specificity_exact:
  assumes "length segs \<le> 16"
  shows "roundToDouble (spec_specificity segs) = Finite (spec_specificity segs)"
proof -
  have "(10::nat) ^ length segs \<le> 10 ^ 16"
    using assms by (intro power_increasing) auto
  then have "9 * spec_specificity segs + 4 \<le> 4 * 10 ^ 16"
    using spec_specificity_bound[of segs] by linarith
  then have "spec_specificity segs < 2 ^ 53" by simp
  then show ?thesis by (simp add: roundToDouble_def)
qed

lemma bitlen_upper: "n < 2 ^ bitlen n"
proof (induction n rule: bitlen.induct)
  case (1 n)
  show ?case
  proof (cases "n = 0")
    case True
    then show ?thesis by simp
  next
    case False
    then have b: "bitlen n = Suc (bitlen (n div 2))" by (simp add: bitlen.simps[of n] del: bitlen.simps)
    from 1[OF False] have "n div 2 < 2 ^ bitlen (n div 2)" .
    then have "n < 2 * 2 ^ bitlen (n div 2)" by linarith
    then show ?thesis by (simp add: b del: bitlen.simps)
  qed
qed

lemma bitlen_lower: "0 < n \<Longrightarrow> 2 ^ (bitlen n - 1) \<le> n"
proof (induction n rule: bitlen.induct)
  case (1 n)
  then have n: "n \<noteq> 0" by simp
  then have b: "bitlen n = Suc (bitlen (n div 2))" by (simp add: bitlen.simps[of n] del: bitlen.simps)
  show ?case
  proof (cases "n div 2 = 0")
    case True
    then have "bitlen (n div 2) = 0" by simp
    then show ?thesis using 1(2) by (simp add: b del: bitlen.simps)
  next
    case False
    then have pos: "0 < n div 2" by simp
    then have b2: "bitlen (n div 2) = Suc (bitlen (n div 2) - 1)"
      by (simp add: bitlen.simps[of "n div 2"] del: bitlen.simps)
    from 1(1)[OF n pos] have "2 ^ (bitlen (n div 2) - 1) \<le> n div 2" .
    then have "2 * 2 ^ (bitlen (n div 2) - 1) \<le> n" by linarith
    moreover have "(2::nat) ^ (bitlen n - 1) = 2 * 2 ^ (bitlen (n div 2) - 1)"
      using b b2 by (metis diff_Suc_1 power_Suc)
    ultimately show ?thesis by simp
  qed
qed

lemma bitlen_large: "2 ^ k \<le> n \<Longrightarrow> k < bitlen n"
proof -
  assume "2 ^ k \<le> n"
  then have "(2::nat) ^ k < 2 ^ bitlen n" using bitlen_upper[of n] by linarith
  then show ?thesis by (simp del: bitlen.simps)
qed

lemma round_near:
  fixes q r u h n :: nat
  assumes "n = q * u + r" and "r < u" and "u = 2 * h"
    and "q' = (if r > h \<or> (r = h \<and> odd q) then q + 1 else q)"
  shows "2 * (q' * u) \<le> 2 * n + u \<and> 2 * n \<le> 2 * (q' * u) + u
         \<and> ((2 * (q' * u) = 2 * n + u \<or> 2 * n = 2 * (q' * u) + u) \<longrightarrow> even q')"
proof (cases "r > h \<or> (r = h \<and> odd q)")
  case True
  then have q': "q' = q + 1" using assms(4) by simp
  have m: "q' * u = q * u + u" by (simp add: q')
  show ?thesis unfolding m using assms(1,2,3) True q' by auto
next
  case False
  then have q': "q' = q" using assms(4) by simp
  show ?thesis unfolding q' using assms(1,2,3) False by auto
qed

lemma round_overflow:
  fixes q r h n e :: nat
  assumes "n = q * 2 ^ e + r" and "r < 2 ^ e" and "(2::nat) ^ e = 2 * h"
    and "q' = (if r > h \<or> (r = h \<and> odd q) then q + 1 else q)"
    and "e = bitlen n - 53" and "2 ^ 53 \<le> n"
    and "(2::nat) ^ 1024 \<le> q' * 2 ^ e"
  shows "(2::nat) ^ 1024 \<le> n + 2 ^ 970"
proof (cases "1024 < bitlen n")
  case True
  then have "(2::nat) ^ 1024 \<le> 2 ^ (bitlen n - 1)" by (intro power_increasing) auto
  also have "\<dots> \<le> n" using assms(6) by (intro bitlen_lower) (cases "n = 0", auto)
  finally show ?thesis by linarith
next
  case False
  have b53: "53 < bitlen n" using assms(6) by (rule bitlen_large)
  then have be: "bitlen n = 53 + e" using assms(5) by simp
  have e: "e \<le> 971" using False be by simp
  have "q * 2 ^ e \<le> n" using assms(1) by simp
  also have "n < 2 ^ (53 + e)" using bitlen_upper[of n] be by simp
  finally have "q * 2 ^ e < 2 ^ 53 * 2 ^ e" by (simp add: power_add)
  then have q: "q < 2 ^ 53" by simp
  have q'le: "q' \<le> q + 1" using assms(4) by simp
  have "(2::nat) ^ 1024 \<le> (q + 1) * 2 ^ e"
    using assms(7) q'le by (meson le_trans mult_le_mono1)
  also have "\<dots> \<le> 2 ^ 53 * 2 ^ e" using q by (intro mult_le_mono1) simp
  also have "\<dots> = 2 ^ (53 + e)" by (simp add: power_add)
  finally have "(2::nat) ^ 1024 \<le> 2 ^ (53 + e)" .
  then have "1024 \<le> 53 + e" by (rule power_le_imp_le_exp[rotated]) simp
  with e have e971: "e = 971" by simp
  have "2 ^ 53 * (2::nat) ^ e \<le> q' * 2 ^ e"
    using assms(7) e971 by (simp add: power_add[symmetric])
  then have "2 ^ 53 \<le> q'" by simp
  with q have up: "q' = q + 1" and q1: "q + 1 = 2 ^ 53" using q'le by simp_all
  then have big: "r > h \<or> (r = h \<and> odd q)" using assms(4) by (auto split: if_splits)
  then have rh: "h \<le> r" by auto
  have h: "h = 2 ^ 970"
  proof -
    have "(2::nat) ^ 971 = 2 * 2 ^ 970" by (simp add: power_Suc[symmetric] del: power_Suc)
    then show ?thesis using assms(3) e971 by simp
  qed
  have "(2::nat) ^ 1024 = (q + 1) * 2 ^ e"
    using q1 e971 by (simp add: power_add[symmetric])
  also have "\<dots> = q * 2 ^ e + 2 * h" using assms(3) by simp
  also have "\<dots> \<le> n + h" using assms(1) rh by simp
  finally show ?thesis using h by simp
qed

lemma roundToDouble_nearest: "nearestDouble n (roundToDouble n)"
proof (cases "n < 2 ^ 53")
  case True
  then show ?thesis by (simp add: nearestDouble_def roundToDouble_def)
next
  case False
  then have big: "2 ^ 53 \<le> n" by simp
  define e where "e = bitlen n - 53"
  define h :: nat where "h = 2 ^ (e - 1)"
  define q where "q = n div 2 ^ e"
  define r where "r = n mod 2 ^ e"
  define q' where "q' = (if r > h \<or> (r = h \<and> odd q) then q + 1 else q)"
  have "53 < bitlen n" using big by (rule bitlen_large)
  then have epos: "0 < e" by (simp add: e_def)
  then have u: "(2::nat) ^ e = 2 * h"
    unfolding h_def by (cases e) simp_all
  have n: "n = q * 2 ^ e + r" unfolding q_def r_def by (rule div_mult_mod_eq[symmetric])
  have r: "r < 2 ^ e" by (simp add: r_def)
  have val: "roundToDouble n = (if q' * 2 ^ e \<ge> 2 ^ 1024 then Infinity else Finite (q' * 2 ^ e))"
    using False
    by (simp add: roundToDouble_def Let_def e_def h_def q_def r_def q'_def del: bitlen.simps)
  show ?thesis
  proof (cases "q' * 2 ^ e \<ge> 2 ^ 1024")
    case True
    from round_overflow[OF n r u q'_def e_def big True]
    show ?thesis using False True
      by (simp add: nearestDouble_def val Let_def del: bitlen.simps)
  next
    case no: False
    from round_near[OF n r u q'_def]
    show ?thesis using False no
      by (simp add: nearestDouble_def val Let_def e_def[symmetric] del: bitlen.simps)
  qed
qed


subsection \<open>The choice among the solutions\<close>

lemma minus_le_0: "minus (Some vb) (Some va) \<le> 0 \<longleftrightarrow> numberLe vb va"
  by (cases vb; cases va) auto

lemma numberLe_refl: "numberLe v v"
  by (cases v) auto

lemma numberLe_trans: "numberLe a b \<Longrightarrow> numberLe b c \<Longrightarrow> numberLe a c"
  by (cases a; cases b; cases c) auto

lemma numberLe_total: "numberLe a b \<or> numberLe b a"
  by (cases a; cases b) auto

lemma set_insertSolution: "set (insertSolution sts a ys) = insert a (set ys)"
  by (induction ys) auto

lemma insertSolution_headIsMax:
  assumes "headIsMax sts ys" and "valOf sts a = Some va"
  shows "headIsMax sts (insertSolution sts a ys)"
proof (cases ys)
  case Nil
  then show ?thesis using assms by (simp add: headIsMax_def numberLe_refl)
next
  case (Cons s rest)
  from assms(1) Cons obtain vs where vs: "valOf sts s = Some vs"
    by (auto simp: headIsMax_def split: option.splits)
  from assms(1) Cons have all: "\<forall>t \<in> set ys. \<exists>vt. valOf sts t = Some vt \<and> numberLe vt vs"
    by (auto simp: headIsMax_def list_all_iff vs split: option.splits)
  show ?thesis
  proof (cases "compareSolutions sts a s \<le> 0")
    case True
    then have le: "numberLe vs va"
      by (simp add: compareSolutions_def vs assms(2) minus_le_0)
    have "\<forall>t \<in> set ys. \<exists>vt. valOf sts t = Some vt \<and> numberLe vt va"
      using all le numberLe_trans by blast
    then show ?thesis
      using True Cons assms(2)
      by (auto simp: headIsMax_def list_all_iff numberLe_refl)
  next
    case False
    then have "\<not> numberLe vs va"
      by (simp add: compareSolutions_def vs assms(2) minus_le_0)
    then have le: "numberLe va vs" using numberLe_total by blast
    show ?thesis
      using False Cons assms(2) all le vs
      by (auto simp: headIsMax_def list_all_iff set_insertSolution)
  qed
qed

lemma foldr_insertSolution:
  assumes "\<forall>s \<in> set xs. \<exists>v. valOf sts s = Some v"
  shows "headIsMax sts (foldr (insertSolution sts) xs [])
         \<and> set (foldr (insertSolution sts) xs []) = set xs"
  using assms
proof (induction xs)
  case Nil
  then show ?case by (simp add: headIsMax_def)
next
  case (Cons a xs)
  then obtain va where "valOf sts a = Some va" by auto
  with Cons show ?case
    by (auto simp: set_insertSolution intro: insertSolution_headIsMax)
qed

lemma sortSolutions_head:
  assumes "sortSolutions sts xs = Inr (s # rest)"
    and "\<forall>t \<in> set xs. \<exists>v. valOf sts t = Some v"
  shows "s \<in> set xs \<and>
         (\<forall>t \<in> set xs. \<exists>vt vs. valOf sts t = Some vt \<and> valOf sts s = Some vs \<and> numberLe vt vs)"
proof -
  from assms(1) have eq: "foldr (insertSolution sts) xs [] = s # rest"
    by (auto simp: sortSolutions_def split: if_splits)
  from foldr_insertSolution[OF assms(2)] eq
  have h: "headIsMax sts (s # rest)" and st: "set (s # rest) = set xs" by simp_all
  from h have "\<forall>t \<in> set (s # rest). \<exists>vt vs. valOf sts t = Some vt \<and> valOf sts s = Some vs \<and> numberLe vt vs"
    unfolding headIsMax_def list_all_iff by (auto split: option.splits)
  with st show ?thesis by auto
qed

subsection \<open>The result of recognition\<close>

lemma map_sum_Some_eq: "map_sum id Some x = Inr (Some r) \<longleftrightarrow> x = Inr r"
  by (cases x) auto

lemma recognize_Some_cases:
  assumes "recognize env this p = Inr (Some res)"
    and "preparePath env p = Inr (p4, originalPath, qps)"
    and "dropSlash p4 originalPath = (p5, originalPath', dropped)"
  shows "\<exists>s rest source ref.
           sortSolutions (states this) (solutionsOf (states this) p5) = Inr (s # rest)
           \<and> regexOf (states this) s = Some source
           \<and> handlersOf (states this) s = Some ref
           \<and> findHandler env (Some source) (arrayAt this ref)
                (extractionPath source originalPath' dropped) qps = Inr res"
  using assms
  by (auto simp: recognize_def map_sum_Some_eq split: sum.splits list.splits option.splits)

text \<open>
  C1 (as amended). The score that \<open>parse\<close> computes for a pattern is unary \<open>+\<close> of the
  digit string (Star 1, Epsilon 2, Dynamic 3, Static 4, in the order of the segments), that
  is the double nearest to the integer of the digit string; for a pattern of at most 16
  segments it is that integer. \<open>add\<close> stores it for a batch of that one pattern. When
  \<open>recognize\<close> returns a result and every solution has a score, the result is extracted
  for a solution whose score is greatest among the solutions.
\<close>

theorem score_and_choice:
  "nearestDouble (spec_specificity (segmentsOf env pattern)) (scoreOf env pattern)
   \<and> (length (segmentsOf env pattern) \<le> 16 \<longrightarrow>
        scoreOf env pattern = Finite (spec_specificity (segmentsOf env pattern)))
   \<and> (states this0 \<noteq> [] \<longrightarrow>
        specificityOf (states (add env this0 [\<lparr> path = pattern, handler = h \<rparr>] as))
            (acceptingState env this0 [\<lparr> path = pattern, handler = h \<rparr>])
          = Some (Some (scoreOf env pattern)))
   \<and> (recognize env this p = Inr (Some res)
        \<and> preparePath env p = Inr (p4, originalPath, qps)
        \<and> dropSlash p4 originalPath = (p5, originalPath', dropped)
        \<and> (\<forall>t \<in> set (solutionsOf (states this) p5). \<exists>v. valOf (states this) t = Some v)
      \<longrightarrow> (\<exists>s source ref.
               s \<in> set (solutionsOf (states this) p5)
               \<and> regexOf (states this) s = Some source
               \<and> handlersOf (states this) s = Some ref
               \<and> findHandler env (Some source) (arrayAt this ref)
                    (extractionPath source originalPath' dropped) qps = Inr res
               \<and> (\<forall>t \<in> set (solutionsOf (states this) p5).
                     \<exists>vt vs. valOf (states this) t = Some vt \<and> valOf (states this) s = Some vs
                       \<and> numberLe vt vs)))"
proof (intro conjI impI)
  show "nearestDouble (spec_specificity (segmentsOf env pattern)) (scoreOf env pattern)"
    unfolding scoreOf_eq by (rule roundToDouble_nearest)
next
  assume "length (segmentsOf env pattern) \<le> 16"
  then show "scoreOf env pattern = Finite (spec_specificity (segmentsOf env pattern))"
    by (simp add: scoreOf_eq spec_specificity_exact)
next
  assume ne: "states this0 \<noteq> []"
  show "specificityOf (states (add env this0 [\<lparr> path = pattern, handler = h \<rparr>] as))
              (acceptingState env this0 [\<lparr> path = pattern, handler = h \<rparr>])
             = Some (Some (scoreOf env pattern))"
    using add_accepting_state[OF ne, of env "[\<lparr> path = pattern, handler = h \<rparr>]" as]
      addLoop_specificityVal[of "[\<lparr> path = pattern, handler = h \<rparr>]" env this0]
    by simp
next
  assume a: "recognize env this p = Inr (Some res)
        \<and> preparePath env p = Inr (p4, originalPath, qps)
        \<and> dropSlash p4 originalPath = (p5, originalPath', dropped)
        \<and> (\<forall>t \<in> set (solutionsOf (states this) p5). \<exists>v. valOf (states this) t = Some v)"
  then have a1: "recognize env this p = Inr (Some res)"
    and a2: "preparePath env p = Inr (p4, originalPath, qps)"
    and a3: "dropSlash p4 originalPath = (p5, originalPath', dropped)"
    and a4: "\<forall>t \<in> set (solutionsOf (states this) p5). \<exists>v. valOf (states this) t = Some v"
    by simp_all
  from recognize_Some_cases[OF a1 a2 a3] obtain s rest source ref where
    sorted: "sortSolutions (states this) (solutionsOf (states this) p5) = Inr (s # rest)"
    and re: "regexOf (states this) s = Some source"
    and hs: "handlersOf (states this) s = Some ref"
    and fh: "findHandler env (Some source) (arrayAt this ref)
                (extractionPath source originalPath' dropped) qps = Inr res"
    by blast
  from sortSolutions_head[OF sorted a4] re hs fh
  show "\<exists>s source ref.
               s \<in> set (solutionsOf (states this) p5)
               \<and> regexOf (states this) s = Some source
               \<and> handlersOf (states this) s = Some ref
               \<and> findHandler env (Some source) (arrayAt this ref)
                    (extractionPath source originalPath' dropped) qps = Inr res
               \<and> (\<forall>t \<in> set (solutionsOf (states this) p5).
                     \<exists>vt vs. valOf (states this) t = Some vt \<and> valOf (states this) s = Some vs
                       \<and> numberLe vt vs)"
    by blast
qed

lemma twoBatches_prepare:
  "preparePath asciiEnv ''/posts/new'' = Inr (''/posts/new'', ''/posts/new'', [])"
  by (simp add: preparePath_def env_eval Let_def)

lemma twoBatches_dropSlash:
  "dropSlash ''/posts/new'' ''/posts/new'' = (''/posts/new'', ''/posts/new'', False)"
  by (simp add: dropSlash_def)

lemma twoBatches_solutions: "solutionsOf (states twoBatches) ''/posts/new'' = [10, 11]"
  by (simp add: twoBatches_def parse_eval env_eval put_eval add_eval recognize_eval)

lemma twoBatches_vals:
  "valOf (states twoBatches) 10 = Some (Finite 44)"
  "valOf (states twoBatches) 11 = Some (Finite 43)"
  by (simp_all add: twoBatches_def parse_eval env_eval put_eval add_eval recognize_eval)

lemma twoBatches_recognize:
  "recognize asciiEnv twoBatches ''/posts/new'' =
     Inr (Some \<lparr> results = [\<lparr> result.handler = ''new'', params = [], isDynamic = False \<rparr>],
                 recognizeResults.queryParams = [] \<rparr>)"
  by (simp add: twoBatches_def parse_eval env_eval put_eval add_eval recognize_eval)

lemma posts_id_segments:
  "segmentsOf asciiEnv ''/posts/:id'' = [StaticSegment ''posts'', DynamicSegment ''id'']"
  by (simp add: segmentsOf_def parse_eval env_eval)

theorem score_and_choice_witness:
  "length (segmentsOf asciiEnv ''/posts/:id'') \<le> 16
   \<and> states (RouteRecognizer :: string engine) \<noteq> []
   \<and> recognize asciiEnv twoBatches ''/posts/new'' =
       Inr (Some \<lparr> results = [\<lparr> result.handler = ''new'', params = [], isDynamic = False \<rparr>],
                   recognizeResults.queryParams = [] \<rparr>)
   \<and> solutionsOf (states twoBatches) ''/posts/new'' = [10, 11]
   \<and> scoreOf asciiEnv ''/posts/:id'' = Finite 43
   \<and> specificityOf
        (states (add asciiEnv (RouteRecognizer :: string engine)
                   [\<lparr> path = ''/posts/:id'', handler = ''show'' \<rparr>] None))
        (acceptingState asciiEnv (RouteRecognizer :: string engine)
           [\<lparr> path = ''/posts/:id'', handler = ''show'' \<rparr>])
       = Some (Some (Finite 43))
   \<and> (\<exists>s. (s = 10 \<or> s = 11)
         \<and> (\<exists>vs. valOf (states twoBatches) s = Some vs \<and> numberLe (Finite 44) vs
                   \<and> numberLe (Finite 43) vs))"
proof -
  have 1: "length (segmentsOf asciiEnv ''/posts/:id'') \<le> 16" by (simp add: posts_id_segments)
  have 2: "states (RouteRecognizer :: string engine) \<noteq> []" by (simp add: RouteRecognizer_def)
  have 6: "\<forall>t \<in> set (solutionsOf (states twoBatches) ''/posts/new'').
             \<exists>v. valOf (states twoBatches) t = Some v"
    by (simp add: twoBatches_solutions twoBatches_vals)
  have sp: "spec_specificity [StaticSegment ''posts'', DynamicSegment ''id''] = 43"
    by (simp add: spec_specificity_def digitsValue_def)
  note inst = score_and_choice[where env = asciiEnv and pattern = "''/posts/:id''"
      and ?this0.0 = "RouteRecognizer :: string engine" and h = "''show''" and as = None
      and this = twoBatches and p = "''/posts/new''" and ?p4.0 = "''/posts/new''"
      and originalPath = "''/posts/new''" and qps = "[]" and ?p5.0 = "''/posts/new''"
      and originalPath' = "''/posts/new''" and dropped = False
      and res = "\<lparr> results = [\<lparr> result.handler = ''new'', params = [], isDynamic = False \<rparr>],
                   recognizeResults.queryParams = [] \<rparr>"]
  from inst 1 have score: "scoreOf asciiEnv ''/posts/:id'' = Finite 43"
    by (simp add: posts_id_segments sp)
  from inst 2 have stored: "specificityOf
        (states (add asciiEnv (RouteRecognizer :: string engine)
                   [\<lparr> path = ''/posts/:id'', handler = ''show'' \<rparr>] None))
        (acceptingState asciiEnv (RouteRecognizer :: string engine)
           [\<lparr> path = ''/posts/:id'', handler = ''show'' \<rparr>])
       = Some (Some (Finite 43))"
    by (simp add: score)
  from inst 6 twoBatches_recognize twoBatches_prepare twoBatches_dropSlash
  have "\<exists>s. s \<in> set (solutionsOf (states twoBatches) ''/posts/new'')
          \<and> (\<forall>t \<in> set (solutionsOf (states twoBatches) ''/posts/new'').
                \<exists>vt vs. valOf (states twoBatches) t = Some vt \<and> valOf (states twoBatches) s = Some vs
                  \<and> numberLe vt vs)"
    by blast
  then have choice: "\<exists>s. (s = 10 \<or> s = 11)
         \<and> (\<exists>vs. valOf (states twoBatches) s = Some vs \<and> numberLe (Finite 44) vs
                   \<and> numberLe (Finite 43) vs)"
    by (auto simp: twoBatches_solutions twoBatches_vals)
  from 1 2 twoBatches_recognize twoBatches_solutions score stored choice
  show ?thesis by simp
qed

text \<open>C1 (as stated) fails: for a pattern of seventeen Star segments the digit string is
  \<open>11111111111111111\<close>, and the score is the number \<open>11111111111111112\<close> (the integer
  lies halfway between two doubles, and this one has the even significand).\<close>

theorem score_of_seventeen_segments:
  "scoreOf asciiEnv seventeenStars = Finite 11111111111111112
   \<and> spec_specificity (segmentsOf asciiEnv seventeenStars) = 11111111111111111"
  by (simp add: seventeenStars_def scoreOf_def segmentsOf_def spec_specificity_def parse_eval
      env_eval)

subsection \<open>The regex of a batch\<close>

lemma addSegments_regex:
  "addSegments sts cur re emp segs = (sts', cur', re', emp') \<Longrightarrow>
     re' = re @ regexBody segs \<and> emp' = (emp \<and> solid segs = [])"
proof (induction segs arbitrary: sts cur re emp)
  case Nil
  then show ?case by (simp add: regexBody_def solid_def)
next
  case (Cons seg segs)
  show ?case
  proof (cases "seg = EpsilonSegment")
    case True
    with Cons show ?thesis by (simp add: regexBody_def solid_def)
  next
    case False
    obtain sts1 cur1 where p: "put sts cur slashSpec = (sts1, cur1)"
      by (cases "put sts cur slashSpec")
    obtain sts2 cur2 where e: "eachChar seg sts1 cur1 = (sts2, cur2)"
      by (cases "eachChar seg sts1 cur1")
    from Cons.prems False p e
    have "addSegments sts2 cur2 (re @ ''/'' @ segmentRegex seg) False segs = (sts', cur', re', emp')"
      by simp
    from Cons.IH[OF this] False show ?thesis by (simp add: regexBody_def solid_def)
  qed
qed

lemma solid_append: "solid (xs @ ys) = solid xs @ solid ys"
  by (simp add: solid_def)

lemma regexBody_append: "regexBody (xs @ ys) = regexBody xs @ regexBody ys"
  by (simp add: regexBody_def solid_append)

lemma addRoutes_regex:
  "regexNow (addRoutes env a routes) = regexNow a @ regexBody (batchSegments env routes)
   \<and> isEmpty (addRoutes env a routes) = (isEmpty a \<and> solid (batchSegments env routes) = [])
   \<and> allSegments (addRoutes env a routes) = allSegments a @ batchSegments env routes"
proof (induction routes arbitrary: a)
  case Nil
  then show ?case by (simp add: batchSegments_def regexBody_def solid_def)
next
  case (Cons r routes)
  obtain segs ns sds val where p: "parse env (route.path r) [] [] = (segs, ns, sds, val)"
    by (cases "parse env (route.path r) [] []") auto
  obtain sts cur re emp where
    s: "addSegments (statesNow a) (currentState a) (regexNow a) (isEmpty a) segs = (sts, cur, re, emp)"
    by (cases "addSegments (statesNow a) (currentState a) (regexNow a) (isEmpty a) segs") auto
  have segs: "segmentsOf env (route.path r) = segs" using p by (simp add: segmentsOf_def)
  from addSegments_regex[OF s] have re: "re = regexNow a @ regexBody segs"
    and emp: "emp = (isEmpty a \<and> solid segs = [])" by simp_all
  show ?case
    using p s re emp segs
    by (auto simp: Cons.IH batchSegments_def regexBody_append solid_append)
qed

lemma addLoop_regex:
  "regexNow (addLoop env this routes) @ ''$'' = batchRegex (batchSegments env routes)
   \<and> allSegments (addLoop env this routes) = batchSegments env routes"
  by (auto simp: addLoop_def Let_def addRoutes_regex batchRegex_def split: prod.splits)

lemma rev_escapeRegex_snoc:
  "rev (escapeRegex (s @ [c])) =
     (if c \<in> set specials then [c, CHR 0x5C] else [c]) @ rev (escapeRegex s)"
  by (simp add: escapeRegex_def)

lemma ends_drop_rev: "drop (length xs - n) xs = ys \<longleftrightarrow> take n (rev xs) = rev ys"
proof -
  have "drop (length xs - n) xs = rev (take n (rev xs))" by (simp add: rev_take)
  then show ?thesis by (simp add: rev_swap)
qed

lemma static_not_star_suffix:
  "take 5 (CHR ''$'' # rev (escapeRegex s) @ CHR ''/'' # zs) \<noteq> ''$)+.(''"
proof (cases s rule: rev_cases)
  case Nil
  then show ?thesis by (simp add: escapeRegex_def)
next
  case (snoc s' c)
  then show ?thesis
    by (auto simp: rev_escapeRegex_snoc specials_def)
qed

lemma batchRegex_star_suffix:
  "drop (length (batchRegex segs) - 5) (batchRegex segs) = ''(.+)$'' \<longleftrightarrow> endsWithStar segs"
proof (cases "solid segs" rule: rev_cases)
  case Nil
  then show ?thesis
    by (simp add: batchRegex_def regexBody_def endsWithStar_def)
next
  case (snoc front seg)
  have rv: "rev (batchRegex segs) =
      CHR ''$'' # rev (segmentRegex seg) @ CHR ''/'' # rev (''^'' @ concat (map (\<lambda>seg. ''/'' @ segmentRegex seg) front))"
    using snoc by (simp add: batchRegex_def regexBody_def)
  show ?thesis
  proof (cases seg)
    case (StaticSegment s)
    then show ?thesis
      using snoc static_not_star_suffix[of s]
      by (simp add: ends_drop_rev rv endsWithStar_def)
  next
    case (DynamicSegment n)
    then show ?thesis using snoc by (simp add: ends_drop_rev rv endsWithStar_def)
  next
    case (StarSegment n)
    then show ?thesis using snoc by (simp add: ends_drop_rev rv endsWithStar_def)
  next
    case EpsilonSegment
    then have "EpsilonSegment \<in> set (solid segs)" using snoc by simp
    then show ?thesis by (simp add: solid_def)
  qed
qed

text \<open>
  C4. When the working path (the normalized path \<open>p4\<close>) is longer than one character and
  ends in \<open>/\<close>, the solutions are those of the walk over the path without that \<open>/\<close>;
  and when the regex of the chosen state is the regex of a batch whose last segment, Epsilon
  apart, is a Star, \<open>findHandler\<close> gets \<open>originalPath\<close>, cut at the same index, with
  the \<open>/\<close> appended again (and without it otherwise). \<open>add\<close> stores the regex of the
  batch in the accepting state.
\<close>

theorem trailing_slash_dropped_and_restored:
  assumes "preparePath env p = Inr (p4, originalPath, qps)"
    and "length p4 > 1" and "last p4 = CHR ''/''"
    and "sortSolutions (states this) (solutionsOf (states this) (butlast p4)) = Inr (s # rest)"
    and "regexOf (states this) s = Some (batchRegex segs)"
    and "handlersOf (states this) s = Some ref"
    and "states this0 \<noteq> []"
  shows "recognize env this p =
           map_sum id Some
             (findHandler env (Some (batchRegex segs)) (arrayAt this ref)
                (take (length p4 - 1) originalPath @ (if endsWithStar segs then ''/'' else []))
                qps)
         \<and> regexOf (states (add env this0 routes as)) (acceptingState env this0 routes)
             = Some (batchRegex (batchSegments env routes))"
proof -
  have ne: "p4 \<noteq> []" using assms(2) by auto
  have l: "p4 ! (length p4 - 1) = CHR ''/''"
    using assms(3) ne by (simp add: last_conv_nth)
  have d: "dropSlash p4 originalPath = (butlast p4, take (length p4 - 1) originalPath, True)"
    using assms(2) l by (simp add: dropSlash_def Let_def butlast_conv_take)
  have x: "extractionPath (batchRegex segs) (take (length p4 - 1) originalPath) True =
             take (length p4 - 1) originalPath @ (if endsWithStar segs then ''/'' else [])"
    by (simp add: extractionPath_def batchRegex_star_suffix)
  have 1: "recognize env this p =
           map_sum id Some
             (findHandler env (Some (batchRegex segs)) (arrayAt this ref)
                (take (length p4 - 1) originalPath @ (if endsWithStar segs then ''/'' else []))
                qps)"
    using assms(1,4,5,6) d x by (simp add: recognize_def)
  have 2: "regexOf (states (add env this0 routes as)) (acceptingState env this0 routes)
             = Some (batchRegex (batchSegments env routes))"
    using add_accepting_state[OF assms(7), of env routes as] addLoop_regex[of env this0 routes]
    by simp
  from 1 2 show ?thesis by simp
qed

lemma files_prepare:
  "preparePath asciiEnv ''/files/a/b/'' = Inr (''/files/a/b/'', ''/files/a/b/'', [])"
  by (simp add: preparePath_def env_eval Let_def)

lemma files_sorted:
  "sortSolutions (states filesEngine) (solutionsOf (states filesEngine) (butlast ''/files/a/b/''))
     = Inr (8 # [])"
  by (simp add: filesEngine_def parse_eval env_eval put_eval add_eval recognize_eval)

lemma files_segments: "batchRegex [StaticSegment ''files'', StarSegment ''path''] = ''^/files/(.+)$''"
  by (simp add: batchRegex_def regexBody_def solid_def escapeRegex_def specials_def)

lemma files_regex_text: "regexOf (states filesEngine) 8 = Some ''^/files/(.+)$''"
  by (simp add: filesEngine_def parse_eval env_eval put_eval add_eval recognize_eval)

lemma files_regex:
  "regexOf (states filesEngine) 8 = Some (batchRegex [StaticSegment ''files'', StarSegment ''path''])"
  unfolding files_segments by (rule files_regex_text)

lemma files_handlers: "handlersOf (states filesEngine) 8 = Some 0"
  by (simp add: filesEngine_def parse_eval env_eval put_eval add_eval recognize_eval)

lemma files_array:
  "arrayAt filesEngine 0 =
     [\<lparr> handler.handler = ''files'', handler.names = [''path''], handler.shouldDecodes = [False] \<rparr>]"
  by (simp add: filesEngine_def parse_eval env_eval put_eval add_eval recognize_eval)

lemma files_extraction:
  "findHandler asciiEnv (Some ''^/files/(.+)$'')
     [\<lparr> handler.handler = ''files'', handler.names = [''path''], handler.shouldDecodes = [False] \<rparr>]
     ''/files/a/b/'' [] =
   Inr \<lparr> results = [\<lparr> result.handler = ''files'', params = [(''path'', Some ''a/b/'')],
                       isDynamic = True \<rparr>],
         recognizeResults.queryParams = [] \<rparr>"
  by (simp add: env_eval recognize_eval specials_def)

theorem trailing_slash_dropped_and_restored_witness:
  "preparePath asciiEnv ''/files/a/b/'' = Inr (''/files/a/b/'', ''/files/a/b/'', [])
   \<and> length ''/files/a/b/'' > 1 \<and> last ''/files/a/b/'' = CHR ''/''
   \<and> sortSolutions (states filesEngine) (solutionsOf (states filesEngine) (butlast ''/files/a/b/''))
       = Inr (8 # [])
   \<and> regexOf (states filesEngine) 8 = Some (batchRegex [StaticSegment ''files'', StarSegment ''path''])
   \<and> handlersOf (states filesEngine) 8 = Some 0
   \<and> states (RouteRecognizer :: string engine) \<noteq> []
   \<and> endsWithStar [StaticSegment ''files'', StarSegment ''path'']
   \<and> recognize asciiEnv filesEngine ''/files/a/b/'' =
       Inr (Some \<lparr> results = [\<lparr> result.handler = ''files'', params = [(''path'', Some ''a/b/'')],
                                 isDynamic = True \<rparr>],
                   recognizeResults.queryParams = [] \<rparr>)"
proof -
  have 2: "length ''/files/a/b/'' > 1" and 3: "last ''/files/a/b/'' = CHR ''/''" by simp_all
  have 7: "states (RouteRecognizer :: string engine) \<noteq> []" by (simp add: RouteRecognizer_def)
  have star: "endsWithStar [StaticSegment ''files'', StarSegment ''path'']"
    by (simp add: endsWithStar_def solid_def)
  from trailing_slash_dropped_and_restored[OF files_prepare 2 3 files_sorted files_regex
      files_handlers 7]
  have "recognize asciiEnv filesEngine ''/files/a/b/'' =
          map_sum id Some
            (findHandler asciiEnv (Some ''^/files/(.+)$'')
               [\<lparr> handler.handler = ''files'', handler.names = [''path''],
                  handler.shouldDecodes = [False] \<rparr>]
               ''/files/a/b/'' [])"
    by (simp add: files_segments files_array star)
  then show ?thesis
    using files_prepare files_sorted files_regex files_handlers 7 star
    by (simp add: files_extraction)
qed

subsection \<open>Runs of the automaton\<close>




























subsection \<open>The automaton of a batch\<close>

















subsection \<open>The tokens of the regex of a batch\<close>












subsection \<open>Matching the generated path\<close>


















subsection \<open>The parameters of the handlers\<close>












subsection \<open>Generation\<close>




subsection \<open>Generation followed by recognition\<close>







lemma example_this0:
  "addAll asciiEnv (RouteRecognizer :: string engine) exampleBefore =
     add asciiEnv RouteRecognizer [\<lparr> path = ''/new'', handler = ''new'' \<rparr>] None"
  by (simp add: exampleBefore_def)

















end
